theory Spec2Isabelle
  imports Complex_Main "HOL-Library.Option_ord"
begin

section \<open>Market data pipeline: extract, transform, load\<close>

text \<open>
  A shallow embedding of the decision logic of the pipeline:
  \<^item> \<^verbatim>\<open>src/pipeline/transform/transformer.py\<close>: expression parsing, reference-rate
    mapping, value adjustment, selection of raw records;
  \<^item> \<^verbatim>\<open>src/pipeline/extract/extractor.py\<close>: date-range precondition, version cap,
    version assignment;
  \<^item> \<^verbatim>\<open>src/pipeline/load/loader.py\<close>: upsert and integrity check;
  \<^item> \<^verbatim>\<open>src/models.py\<close>: the two tables and the request and response validators;
  \<^item> \<^verbatim>\<open>src/market_data_api.py\<close>: the shape of the frame the mock source returns.

  Python exceptions are values of the type \<open>error\<close>; a function that can raise returns
  \<open>error + 'a\<close>. A table is the list of its rows in insertion order, and a session is
  the table it reads and writes: the session flushes pending rows before each query, so
  a query sees every row added before it.
\<close>

subsection \<open>Exceptions\<close>

text \<open>
  The code raises \<^verbatim>\<open>ValueError\<close> with a message; the constructor of \<open>value_error\<close>
  names the message, in the order of the source:
  \<^item> \<open>SameDatesRequired\<close>: "... mode requires start_date and end_date to be the same"
    (the specification's InvalidDateRangeError);
  \<^item> \<open>UnsupportedMode\<close>: "Unsupported ingestion mode";
  \<^item> \<open>BadWrapper\<close>: "Expression must start with 'DB(' and end with ')'",
    \<open>BadPrefix\<close>: "Expression must follow DB(COV,VOLSWAPTION,...) format",
    \<open>BadIndicator\<close>: "Invalid reference indicator",
    \<open>BadPartCount\<close>: "Expression must have 7 or 8 comma-separated parts",
    \<open>MissingFields\<close>: "Missing required fields after parsing expression"
    (the specification's MalformedExpressionError);
  \<^item> \<open>BadXTenor\<close>, \<open>BadYTenor\<close>: "Invalid x_tenor", "Invalid y_tenor"
    (the specification's InvalidTenorError);
  \<^item> \<open>NoReferenceRate\<close>: "Could not map reference rate for currency"
    (the specification's UnmappableReferenceRateError);
  \<^item> \<open>RawIdIsNone\<close>: "raw_data_id is None for raw_record".

  \<open>KeyError\<close> and \<open>IndexError\<close> are the exceptions of a dictionary and a list read,
  \<open>TypeError\<close> that of an entry of the wrong shape (the table has none);
  \<open>ValidationError\<close> is pydantic's; \<open>OSError\<close> stands for a failed write of a blob;
  \<open>IntegrityError\<close> and \<open>PendingRollbackError\<close> are those of the storage engine.
\<close>

datatype value_error =
    SameDatesRequired
  | UnsupportedMode
  | BadWrapper
  | BadPrefix
  | BadIndicator
  | BadPartCount
  | BadXTenor
  | BadYTenor
  | NoReferenceRate
  | MissingFields
  | RawIdIsNone

datatype error =
    ValueError value_error
  | KeyError string
  | IndexError
  | TypeError
  | ValidationError
  | OSError
  | IntegrityError
  | PendingRollbackError

subsection \<open>Python strings\<close>

definition startswith :: "string \<Rightarrow> string \<Rightarrow> bool" where
  "startswith s p = (take (length p) s = p)"

definition endswith :: "string \<Rightarrow> string \<Rightarrow> bool" where
  "endswith s p = (length p \<le> length s \<and> drop (length s - length p) s = p)"

text \<open>\<^verbatim>\<open>s.split(sep)\<close> for a separator of one character: one more part than separators.\<close>

fun split_on :: "char \<Rightarrow> string \<Rightarrow> string list" where
  "split_on sep [] = [[]]"
| "split_on sep (c # cs) =
     (if c = sep then [] # split_on sep cs
      else (case split_on sep cs of
              [] \<Rightarrow> [[c]]
            | p # ps \<Rightarrow> (c # p) # ps))"

text \<open>\<^verbatim>\<open>s[3:-1]\<close>: without the last character, then without the first three.\<close>

definition slice_3_minus1 :: "string \<Rightarrow> string" where
  "slice_3_minus1 s = drop 3 (butlast s)"

text \<open>\<^verbatim>\<open>",".join(parts)\<close>, used to write expressions down token by token.\<close>

fun join_commas :: "string list \<Rightarrow> string" where
  "join_commas [] = []"
| "join_commas [p] = p"
| "join_commas (p # q # ps) = p @ CHR '','' # join_commas (q # ps)"

definition DB_expression :: "string list \<Rightarrow> string" where
  "DB_expression parts = ''DB('' @ join_commas parts @ '')''"

subsection \<open>Floating point\<close>

text \<open>
  Values are Python floats. The model leaves their type \<open>'f\<close> and their operations open:
  \<open>fmul\<close> is the multiplication of two floats, \<open>sqrt252\<close> the float \<^verbatim>\<open>math.sqrt(252)\<close>,
  \<open>gt0\<close> the comparison \<^verbatim>\<open>v > 0\<close>. Every theorem holds for any choice of them, so for
  IEEE doubles.
\<close>

record 'f float_ops =
  fmul :: "'f \<Rightarrow> 'f \<Rightarrow> 'f"
  sqrt252 :: 'f
  gt0 :: "'f \<Rightarrow> bool"

subsection \<open>Enumerations of \<^verbatim>\<open>models.py\<close>\<close>

datatype RunModeEnum = DEFAULT | OLD_CODES | HISTORICAL

fun RunModeEnum_value :: "RunModeEnum \<Rightarrow> string" where
  "RunModeEnum_value DEFAULT = ''default''"
| "RunModeEnum_value OLD_CODES = ''old_codes''"
| "RunModeEnum_value HISTORICAL = ''historical''"

definition CurrencyEnum_values :: "string list" where
  "CurrencyEnum_values = [''USD'', ''EUR'', ''GBP'', ''CHF'']"

definition OptionExpiryEnum_values :: "string list" where
  "OptionExpiryEnum_values = [''1y'', ''5y'']"

definition SwapTenorEnum_values :: "string list" where
  "SwapTenorEnum_values = [''2y'', ''5y'', ''10y'']"

definition RunModeEnum_values :: "string list" where
  "RunModeEnum_values = [''default'', ''old_codes'', ''historical'']"

subsection \<open>Transformer: reference rates, parsing, value adjustment\<close>

text \<open>
  \<^verbatim>\<open>currency_ref_mapping\<close>: a currency maps to a rate, or to a dictionary from the
  reference indicator to a rate.
\<close>

datatype ref_entry = Rate string | ByIndicator "(string \<times> string) list"

definition currency_ref_mapping :: "(string \<times> ref_entry) list" where
  "currency_ref_mapping =
     [(''USD'', Rate ''Libor''),
      (''USDD'', Rate ''SOFR''),
      (''EUR'', Rate ''Euribor''),
      (''GBP'', ByIndicator [(''default'', ''Libor''), (''SONIA'', ''SOFR'')]),
      (''CHF'', ByIndicator [(''default'', ''Libor''), (''SARON'', ''SARON'')])]"

text \<open>\<^verbatim>\<open>d[k]\<close> on a dictionary raises \<^verbatim>\<open>KeyError(k)\<close> when the key is missing.\<close>

definition dict_get :: "(string \<times> 'v) list \<Rightarrow> string \<Rightarrow> error + 'v" where
  "dict_get d k = (case map_of d k of None \<Rightarrow> Inl (KeyError k) | Some v \<Rightarrow> Inr v)"

text \<open>\<^verbatim>\<open>xs[i]\<close> on a list raises \<^verbatim>\<open>IndexError\<close> out of range.\<close>

definition list_get :: "'a list \<Rightarrow> nat \<Rightarrow> error + 'a" where
  "list_get xs i = (if i < length xs then Inr (xs ! i) else Inl IndexError)"

definition map_reference_rate :: "string \<Rightarrow> string list \<Rightarrow> error + string option" where
  "map_reference_rate currency expression_parts =
     (if currency \<in> set [''USD'', ''USDD'', ''EUR''] then
        (case dict_get currency_ref_mapping currency of
           Inl e \<Rightarrow> Inl e
         | Inr (Rate r) \<Rightarrow> Inr (Some r)
         | Inr (ByIndicator m) \<Rightarrow> Inl TypeError)
      else if currency \<in> set [''GBP'', ''CHF''] then
        (case dict_get currency_ref_mapping currency of
           Inl e \<Rightarrow> Inl e
         | Inr (Rate r) \<Rightarrow> Inl TypeError
         | Inr (ByIndicator currency_mapping) \<Rightarrow>
             if length expression_parts = 8 then
               (case list_get expression_parts 3 of
                  Inl e \<Rightarrow> Inl e
                | Inr ref_indicator \<Rightarrow>
                    (case dict_get currency_mapping ref_indicator of
                       Inl e \<Rightarrow> Inl e
                     | Inr r \<Rightarrow> Inr (Some r)))
             else
               (case dict_get currency_mapping ''default'' of
                  Inl e \<Rightarrow> Inl e
                | Inr r \<Rightarrow> Inr (Some r)))
      else Inr None)"

text \<open>
  \<^verbatim>\<open>_parse_expression\<close> returns (normalized currency, x tenor, y tenor, reference rate):
  the option expiry is the x tenor and the swap tenor the y tenor. \<open>select_tokens\<close> is
  the branch on the number of parts, which binds currency, y tenor and x tenor.
\<close>

definition select_tokens :: "string list \<Rightarrow> error + (string \<times> string \<times> string)" where
  "select_tokens parts =
     (if length parts = 7 then Inr (parts ! 2, parts ! 3, parts ! 4)
      else if length parts = 8 then
        (let currency = parts ! 2; ref_indicator = parts ! 3 in
         if currency \<in> set [''GBP'', ''CHF''] \<and> ref_indicator \<notin> set [''SONIA'', ''SARON'']
         then Inl (ValueError BadIndicator)
         else Inr (currency, parts ! 4, parts ! 5))
      else Inl (ValueError BadPartCount))"

definition parse_expression :: "string \<Rightarrow> error + (string \<times> string \<times> string \<times> string)" where
  "parse_expression expression =
     (if \<not> startswith expression ''DB('' \<or> \<not> endswith expression '')''
      then Inl (ValueError BadWrapper)
      else
        let parts = split_on CHR '','' (slice_3_minus1 expression) in
        case list_get parts 0 of
          Inl e \<Rightarrow> Inl e
        | Inr p0 \<Rightarrow>
            if p0 \<noteq> ''COV'' then Inl (ValueError BadPrefix)
            else
              (case list_get parts 1 of
                 Inl e \<Rightarrow> Inl e
               | Inr p1 \<Rightarrow>
                   if p1 \<noteq> ''VOLSWAPTION'' then Inl (ValueError BadPrefix)
                   else
                     (case select_tokens parts of
                        Inl e \<Rightarrow> Inl e
                      | Inr (currency, y_tenor, x_tenor) \<Rightarrow>
                          if x_tenor \<notin> set OptionExpiryEnum_values
                          then Inl (ValueError BadXTenor)
                          else if y_tenor \<notin> set SwapTenorEnum_values
                          then Inl (ValueError BadYTenor)
                          else
                            (case map_reference_rate currency parts of
                               Inl e \<Rightarrow> Inl e
                             | Inr None \<Rightarrow> Inl (ValueError NoReferenceRate)
                             | Inr (Some ref_rate) \<Rightarrow>
                                 if ref_rate = [] then Inl (ValueError NoReferenceRate)
                                 else
                                   let normalized_currency =
                                         (if currency = ''USDD'' then ''USD'' else currency)
                                   in
                                   if normalized_currency = [] \<or> x_tenor = [] \<or>
                                      y_tenor = [] \<or> ref_rate = []
                                   then Inl (ValueError MissingFields)
                                   else Inr (normalized_currency, x_tenor, y_tenor, ref_rate)))))"

definition apply_value_transformations ::
  "'f float_ops \<Rightarrow> 'f \<Rightarrow> string \<Rightarrow> string \<Rightarrow> 'f" where
  "apply_value_transformations fo v currency ref_rate =
     (if currency = ''USD'' \<and> ref_rate = ''SOFR'' then fmul fo v (sqrt252 fo) else v)"

subsection \<open>Tables of \<^verbatim>\<open>models.py\<close>\<close>

text \<open>
  A date is its proleptic Gregorian ordinal (\<^verbatim>\<open>date.toordinal()\<close>), a timestamp a
  number of microseconds. The fields of the two tables carry the prefix of their table,
  since both have an expression, a date and a value; \<open>clean_x\<close>, \<open>clean_y\<close> and
  \<open>clean_ref\<close> are the columns \<^verbatim>\<open>x\<close>, \<^verbatim>\<open>y\<close> and \<^verbatim>\<open>ref\<close>. A primary key is
  \<open>None\<close> until the row is added to a session.
\<close>

type_synonym date = int
type_synonym timestamp = int

record 'f RawData =
  raw_data_id :: "int option"
  raw_expression :: string
  raw_date :: date
  raw_value :: 'f
  raw_fetch_timestamp :: timestamp
  raw_version :: int
  raw_ingestion_mode :: string
  raw_source_file_uri :: string

record 'f CleanData =
  clean_data_id :: "int option"
  clean_expression :: string
  clean_date :: date
  clean_currency :: string
  clean_x :: string
  clean_y :: string
  clean_ref :: string
  clean_value :: 'f
  clean_raw_data_id :: int

text \<open>
  The validation that \<^verbatim>\<open>ValidatedSQLModel.__init__\<close> runs: the constraints of the
  fields and the field validators. It raises \<^verbatim>\<open>ValidationError\<close> when it fails.
\<close>

definition RawData_validate :: "'f float_ops \<Rightarrow> 'f RawData \<Rightarrow> bool" where
  "RawData_validate fo r =
     (length (raw_expression r) \<le> 200 \<and>
      gt0 fo (raw_value r) \<and>
      1 \<le> raw_version r \<and>
      raw_ingestion_mode r \<in> set RunModeEnum_values \<and>
      length (raw_source_file_uri r) \<le> 500)"

definition CleanData_validate :: "'f float_ops \<Rightarrow> 'f CleanData \<Rightarrow> bool" where
  "CleanData_validate fo c =
     (length (clean_expression c) \<le> 200 \<and>
      length (clean_currency c) \<le> 10 \<and> clean_currency c \<in> set CurrencyEnum_values \<and>
      length (clean_x c) \<le> 10 \<and> clean_x c \<in> set OptionExpiryEnum_values \<and>
      length (clean_y c) \<le> 10 \<and> clean_y c \<in> set SwapTenorEnum_values \<and>
      length (clean_ref c) \<le> 20 \<and>
      gt0 fo (clean_value c))"

text \<open>\<^verbatim>\<open>APIRequest\<close>: the two field validators.\<close>

definition validate_expression_format :: "string \<Rightarrow> bool" where
  "validate_expression_format v =
     (if \<not> startswith v ''DB('' \<or> \<not> endswith v '')'' then False
      else
        let parts = split_on CHR '','' (slice_3_minus1 v) in
        if length parts \<notin> set [7, 8] then False
        else if parts ! 0 \<noteq> ''COV'' \<or> parts ! 1 \<noteq> ''VOLSWAPTION'' then False
        else True)"

definition validate_date_range :: "date \<Rightarrow> date \<Rightarrow> bool" where
  "validate_date_range start_date end_date = (\<not> end_date < start_date)"

definition APIRequest_validate :: "string \<Rightarrow> date \<Rightarrow> date \<Rightarrow> bool" where
  "APIRequest_validate expression start_date end_date =
     (validate_expression_format expression \<and> validate_date_range start_date end_date)"

text \<open>
  A primary key is assigned when a row is flushed: one more than the greatest key of the
  table, 1 in an empty table. Rows are never deleted. \<open>session_add_raw\<close> and
  \<open>session_add_clean\<close> are the table with the row written; whether the clean table
  accepts the row is decided before, in \<open>flush\<close>.
\<close>

definition next_id :: "int option list \<Rightarrow> int" where
  "next_id ids =
     (case List.map_filter (\<lambda>i. i) ids of
        [] \<Rightarrow> 1
      | j # js \<Rightarrow> Max (set (j # js)) + 1)"

definition session_add_raw :: "'f RawData list \<Rightarrow> 'f RawData \<Rightarrow> 'f RawData list" where
  "session_add_raw session r =
     session @ [if raw_data_id r = None
                then r\<lparr>raw_data_id := Some (next_id (map raw_data_id session))\<rparr>
                else r]"


subsection \<open>The mock market data source\<close>

text \<open>
  \<^verbatim>\<open>pd.bdate_range(start, end, freq="B")\<close>: the Mondays to Fridays from \<open>start\<close> to
  \<open>end\<close>, both included; ordinal 1 is a Monday. The values are drawn from a seeded
  generator: \<open>rnd expression start end i\<close> is the i-th value drawn.
\<close>

definition weekday :: "date \<Rightarrow> int" where
  "weekday d = (d + 6) mod 7"

definition bdate_range :: "date \<Rightarrow> date \<Rightarrow> date list" where
  "bdate_range start_date end_date = filter (\<lambda>d. weekday d < 5) [start_date..end_date]"

definition get_historical_data ::
  "(string \<Rightarrow> date \<Rightarrow> date \<Rightarrow> nat \<Rightarrow> 'f) \<Rightarrow> string \<Rightarrow> date \<Rightarrow> date \<Rightarrow> (date \<times> 'f) list" where
  "get_historical_data rnd expression start_date end_date =
     (let dates = bdate_range start_date end_date;
          vals = map (rnd expression start_date end_date) [0..<length dates]
      in zip dates vals)"

subsection \<open>Extractor\<close>

text \<open>
  What the extractor reads from outside: the values the source draws, the blob store
  (the URI of the file written, or the error of the write) and the clock. \<open>blob_store\<close>
  and \<open>clock\<close> take the position of the expression in the list of the call.
\<close>

record 'f environment =
  api_values :: "string \<Rightarrow> date \<Rightarrow> date \<Rightarrow> nat \<Rightarrow> 'f"
  blob_store :: "nat \<Rightarrow> string \<Rightarrow> date \<Rightarrow> date \<Rightarrow> error + string"
  clock :: "nat \<Rightarrow> timestamp"

record extract_metrics =
  expressions_processed :: nat
  rows_fetched :: nat
  rows_inserted :: nat
  duplicates_detected :: nat
  errors :: nat

definition should_fetch_data ::
  "'f RawData list \<Rightarrow> string \<Rightarrow> date \<Rightarrow> date \<Rightarrow> RunModeEnum \<Rightarrow> error + bool" where
  "should_fetch_data session expression start_date end_date ingestion_mode =
     (if ingestion_mode = HISTORICAL then Inr True
      else if ingestion_mode \<in> set [DEFAULT, OLD_CODES] then
        Inr (length (filter (\<lambda>r. raw_expression r = expression \<and> raw_date r = start_date)
                       session) < 3)
      else Inl (ValueError UnsupportedMode))"

text \<open>
  The version query of \<^verbatim>\<open>_insert_raw_data\<close>:
  \<^verbatim>\<open>select(coalesce(max(version), 0) + 1).where(expression == e, date == d)\<close>, then
  \<^verbatim>\<open>.first() or 1\<close>.
\<close>

definition next_version :: "'f RawData list \<Rightarrow> string \<Rightarrow> date \<Rightarrow> int" where
  "next_version session expression d =
     (let versions = map raw_version
                       (filter (\<lambda>r. raw_expression r = expression \<and> raw_date r = d) session);
          v = (if versions = [] then 0 else Max (set versions)) + 1
      in if v = 0 then 1 else v)"

text \<open>
  The loop of \<^verbatim>\<open>_insert_raw_data\<close> over the rows of the frame. A row that fails a
  validation raises; the rows added before it stay in the session.
\<close>

fun insert_rows ::
  "'f float_ops \<Rightarrow> 'f RawData list \<Rightarrow> (date \<times> 'f) list \<Rightarrow> string \<Rightarrow> string \<Rightarrow> RunModeEnum \<Rightarrow>
   timestamp \<Rightarrow> nat \<Rightarrow> 'f RawData list \<times> (error + nat)" where
  "insert_rows fo session [] expression blob_uri ingestion_mode fetch_timestamp n =
     (session, Inr n)"
| "insert_rows fo session ((d, v) # rows) expression blob_uri ingestion_mode fetch_timestamp n =
     (if \<not> gt0 fo v then (session, Inl ValidationError)
      else
        let raw_record =
              \<lparr>raw_data_id = None,
               raw_expression = expression,
               raw_date = d,
               raw_value = v,
               raw_fetch_timestamp = fetch_timestamp,
               raw_version = next_version session expression d,
               raw_ingestion_mode = RunModeEnum_value ingestion_mode,
               raw_source_file_uri = blob_uri\<rparr>
        in
        if \<not> RawData_validate fo raw_record then (session, Inl ValidationError)
        else insert_rows fo (session_add_raw session raw_record) rows expression blob_uri
               ingestion_mode fetch_timestamp (n + 1))"

definition insert_raw_data ::
  "'f float_ops \<Rightarrow> 'f RawData list \<Rightarrow> (date \<times> 'f) list \<Rightarrow> string \<Rightarrow> string \<Rightarrow> RunModeEnum \<Rightarrow>
   timestamp \<Rightarrow> 'f RawData list \<times> (error + nat)" where
  "insert_raw_data fo session df expression blob_uri ingestion_mode fetch_timestamp =
     insert_rows fo session df expression blob_uri ingestion_mode fetch_timestamp 0"

text \<open>
  The body of the \<^verbatim>\<open>try\<close> for one expression: an exception, \<^verbatim>\<open>continue\<close>
  (\<open>Inr None\<close>), or the numbers of rows fetched and inserted.
\<close>

definition extract_expression ::
  "'f float_ops \<Rightarrow> 'f environment \<Rightarrow> 'f RawData list \<Rightarrow> nat \<Rightarrow> string \<Rightarrow> date \<Rightarrow> date \<Rightarrow>
   RunModeEnum \<Rightarrow> 'f RawData list \<times> (error + (nat \<times> nat) option)" where
  "extract_expression fo env session i expression start_date end_date ingestion_mode =
     (if \<not> APIRequest_validate expression start_date end_date
      then (session, Inl ValidationError)
      else
        case should_fetch_data session expression start_date end_date ingestion_mode of
          Inl e \<Rightarrow> (session, Inl e)
        | Inr False \<Rightarrow> (session, Inr None)
        | Inr True \<Rightarrow>
            let df = get_historical_data (api_values env) expression start_date end_date in
            if df = [] then (session, Inr None)
            else
              (case blob_store env i expression start_date end_date of
                 Inl e \<Rightarrow> (session, Inl e)
               | Inr blob_uri \<Rightarrow>
                   (case insert_raw_data fo session df expression blob_uri ingestion_mode
                           (clock env i) of
                      (session', Inl e) \<Rightarrow> (session', Inl e)
                    | (session', Inr inserted) \<Rightarrow>
                        (session', Inr (Some (length df, inserted))))))"

fun extract_loop ::
  "'f float_ops \<Rightarrow> 'f environment \<Rightarrow> date \<Rightarrow> date \<Rightarrow> RunModeEnum \<Rightarrow> nat \<Rightarrow> string list \<Rightarrow>
   'f RawData list \<times> extract_metrics \<Rightarrow> 'f RawData list \<times> extract_metrics" where
  "extract_loop fo env start_date end_date ingestion_mode i [] (session, metrics) =
     (session, metrics)"
| "extract_loop fo env start_date end_date ingestion_mode i (expression # rest)
     (session, metrics) =
     extract_loop fo env start_date end_date ingestion_mode (Suc i) rest
       (case extract_expression fo env session i expression start_date end_date
               ingestion_mode of
          (session', Inl e) \<Rightarrow> (session', metrics\<lparr>errors := errors metrics + 1\<rparr>)
        | (session', Inr None) \<Rightarrow> (session', metrics)
        | (session', Inr (Some (fetched, inserted))) \<Rightarrow>
            (session',
             metrics\<lparr>expressions_processed := expressions_processed metrics + 1,
                     rows_fetched := rows_fetched metrics + fetched,
                     rows_inserted := rows_inserted metrics + inserted\<rparr>))"

text \<open>
  \<^verbatim>\<open>extract_data\<close> returns the table after the call and either the exception that
  left the call or the metrics.
\<close>

definition extract_data ::
  "'f float_ops \<Rightarrow> 'f environment \<Rightarrow> 'f RawData list \<Rightarrow> string list \<Rightarrow> date \<Rightarrow> date \<Rightarrow>
   RunModeEnum \<Rightarrow> 'f RawData list \<times> (error + extract_metrics)" where
  "extract_data fo env session expressions start_date end_date ingestion_mode =
     (if ingestion_mode \<in> set [DEFAULT, OLD_CODES] \<and> start_date \<noteq> end_date
      then (session, Inl (ValueError SameDatesRequired))
      else
        case extract_loop fo env start_date end_date ingestion_mode 0 expressions
               (session,
                \<lparr>expressions_processed = 0, rows_fetched = 0, rows_inserted = 0,
                 duplicates_detected = 0, errors = 0\<rparr>) of
          (session', metrics) \<Rightarrow> (session', Inr metrics))"

subsection \<open>Transformer: selection and the transformation loop\<close>

text \<open>
  The default query of \<^verbatim>\<open>_get_raw_data_to_process\<close>: the outer join of the raw table
  with the clean table on (expression, date) gives one row for each matching pair and a
  row without a clean part for a raw row that matches none; the \<^verbatim>\<open>where\<close> keeps a
  row whose clean key is null, or whose raw key is greater than the raw key the clean
  part refers to; the result is ordered by the raw key (a null key sorts first). The
  query for a list of keys has no order of its own: the storage engine answers it in
  the order of the primary key.
\<close>

definition outer_join ::
  "'f RawData list \<Rightarrow> 'f CleanData list \<Rightarrow> ('f RawData \<times> 'f CleanData option) list" where
  "outer_join raws cleans =
     concat (map (\<lambda>r.
       case filter (\<lambda>c. clean_expression c = raw_expression r \<and> clean_date c = raw_date r)
              cleans of
         [] \<Rightarrow> [(r, None)]
       | m # ms \<Rightarrow> map (\<lambda>c. (r, Some c)) (m # ms)) raws)"

fun needs_processing :: "'f RawData \<times> 'f CleanData option \<Rightarrow> bool" where
  "needs_processing (r, None) = True"
| "needs_processing (r, Some c) =
     (clean_data_id c = None \<or>
      (case raw_data_id r of None \<Rightarrow> False | Some i \<Rightarrow> clean_raw_data_id c < i))"

definition get_raw_data_to_process ::
  "'f RawData list \<Rightarrow> 'f CleanData list \<Rightarrow> int list option \<Rightarrow> 'f RawData list" where
  "get_raw_data_to_process raws cleans raw_data_ids =
     (if raw_data_ids \<noteq> None \<and> raw_data_ids \<noteq> Some [] then
        sort_key raw_data_id
          (filter (\<lambda>r. case raw_data_id r of None \<Rightarrow> False
                      | Some i \<Rightarrow> i \<in> set (the raw_data_ids)) raws)
      else
        map fst (sort_key (\<lambda>(r, c). raw_data_id r)
                  (filter needs_processing (outer_join raws cleans))))"

record transform_metrics =
  rows_processed :: nat
  rows_transformed :: nat
  rows_rejected :: nat
  validation_errors :: nat

text \<open>
  The body of the \<^verbatim>\<open>try\<close> for one raw record. A model object is true, so the
  branch that counts a rejected row after the construction is never taken.
\<close>

definition transform_record :: "'f float_ops \<Rightarrow> 'f RawData \<Rightarrow> error + 'f CleanData" where
  "transform_record fo raw_record =
     (case parse_expression (raw_expression raw_record) of
        Inl e \<Rightarrow> Inl e
      | Inr (currency, x_tenor, y_tenor, ref_rate) \<Rightarrow>
          let transformed_value =
                apply_value_transformations fo (raw_value raw_record) currency ref_rate
          in
          case raw_data_id raw_record of
            None \<Rightarrow> Inl (ValueError RawIdIsNone)
          | Some rid \<Rightarrow>
              let clean_record =
                    \<lparr>clean_data_id = None,
                     clean_expression = raw_expression raw_record,
                     clean_date = raw_date raw_record,
                     clean_currency = currency,
                     clean_x = x_tenor,
                     clean_y = y_tenor,
                     clean_ref = ref_rate,
                     clean_value = transformed_value,
                     clean_raw_data_id = rid\<rparr>
              in
              if CleanData_validate fo clean_record then Inr clean_record
              else Inl ValidationError)"

fun transform_loop ::
  "'f float_ops \<Rightarrow> 'f RawData list \<Rightarrow> 'f CleanData list \<times> transform_metrics \<Rightarrow>
   'f CleanData list \<times> transform_metrics" where
  "transform_loop fo [] (clean_records, metrics) = (clean_records, metrics)"
| "transform_loop fo (raw_record # rest) (clean_records, metrics) =
     transform_loop fo rest
       (let metrics1 = metrics\<lparr>rows_processed := rows_processed metrics + 1\<rparr> in
        case transform_record fo raw_record of
          Inr clean_record \<Rightarrow>
            (clean_records @ [clean_record],
             metrics1\<lparr>rows_transformed := rows_transformed metrics1 + 1\<rparr>)
        | Inl ValidationError \<Rightarrow>
            (clean_records, metrics1\<lparr>validation_errors := validation_errors metrics1 + 1\<rparr>)
        | Inl e \<Rightarrow>
            (clean_records, metrics1\<lparr>rows_rejected := rows_rejected metrics1 + 1\<rparr>))"

definition transform_raw_data ::
  "'f float_ops \<Rightarrow> 'f RawData list \<Rightarrow> 'f CleanData list \<Rightarrow> int list option \<Rightarrow>
   'f CleanData list \<times> transform_metrics" where
  "transform_raw_data fo raws cleans raw_data_ids =
     transform_loop fo (get_raw_data_to_process raws cleans raw_data_ids)
       ([], \<lparr>rows_processed = 0, rows_transformed = 0, rows_rejected = 0,
             validation_errors = 0\<rparr>)"

subsection \<open>Loader\<close>




fun update_first :: "('a \<Rightarrow> bool) \<Rightarrow> ('a \<Rightarrow> 'a) \<Rightarrow> 'a list \<Rightarrow> 'a list" where
  "update_first P f [] = []"
| "update_first P f (r # rs) = (if P r then f r # rs else r # update_first P f rs)"

definition same_key :: "'f CleanData \<Rightarrow> 'f CleanData \<Rightarrow> bool" where
  "same_key clean_record r =
     (clean_expression r = clean_expression clean_record \<and>
      clean_date r = clean_date clean_record)"

definition overwrite :: "'f CleanData \<Rightarrow> 'f CleanData \<Rightarrow> 'f CleanData" where
  "overwrite clean_record existing_record =
     existing_record
       \<lparr>clean_currency := clean_currency clean_record,
        clean_x := clean_x clean_record,
        clean_y := clean_y clean_record,
        clean_ref := clean_ref clean_record,
        clean_value := clean_value clean_record,
        clean_raw_data_id := clean_raw_data_id clean_record\<rparr>"








text \<open>
  \<^verbatim>\<open>validate_clean_data_integrity\<close>. An issue is the message appended: "No raw data
  records found", or "Found n duplicate expression+date combinations for fetch_timestamp
  t". The join gives one row for each pair of a clean row and a raw row of the latest
  fetch timestamp with the same expression and date.
\<close>

datatype issue = NoRawDataFound | FoundDuplicates nat timestamp

record integrity_report =
  valid :: bool
  issues :: "issue list"
  duplicate_combinations :: nat
  validation_fetch_timestamp :: "timestamp option"
  records_checked :: nat

definition latest_fetch :: "'f RawData list \<Rightarrow> timestamp option" where
  "latest_fetch raws =
     (if raws = [] then None else Some (Max (set (map raw_fetch_timestamp raws))))"

definition latest_clean_data ::
  "'f RawData list \<Rightarrow> 'f CleanData list \<Rightarrow> timestamp \<Rightarrow> 'f CleanData list" where
  "latest_clean_data raws cleans latest_fetch_timestamp =
     concat (map (\<lambda>c.
       map (\<lambda>r. c)
         (filter (\<lambda>r. clean_expression c = raw_expression r \<and> clean_date c = raw_date r \<and>
                      raw_fetch_timestamp r = latest_fetch_timestamp) raws)) cleans)"

fun count_duplicates ::
  "(string \<times> date) list \<Rightarrow> (string \<times> date) set \<Rightarrow> nat \<Rightarrow> nat" where
  "count_duplicates [] expressions_seen duplicates = duplicates"
| "count_duplicates (expression_date_combo # rest) expressions_seen duplicates =
     (if expression_date_combo \<in> expressions_seen
      then count_duplicates rest expressions_seen (duplicates + 1)
      else count_duplicates rest (insert expression_date_combo expressions_seen) duplicates)"

definition validate_clean_data_integrity ::
  "'f RawData list \<Rightarrow> 'f CleanData list \<Rightarrow> integrity_report" where
  "validate_clean_data_integrity raws cleans =
     (let integrity_report =
            \<lparr>valid = True, issues = [], duplicate_combinations = 0,
             validation_fetch_timestamp = None, records_checked = 0\<rparr>
      in
      case latest_fetch raws of
        None \<Rightarrow> integrity_report\<lparr>issues := issues integrity_report @ [NoRawDataFound]\<rparr>
      | Some latest_fetch_timestamp \<Rightarrow>
          let report1 = integrity_report
                          \<lparr>validation_fetch_timestamp := Some latest_fetch_timestamp\<rparr>;
              records = latest_clean_data raws cleans latest_fetch_timestamp;
              report2 = report1\<lparr>records_checked := length records\<rparr>;
              duplicates =
                count_duplicates (map (\<lambda>c. (clean_expression c, clean_date c)) records) {} 0
          in
          if 0 < duplicates then
            report2\<lparr>valid := False,
                    duplicate_combinations := duplicates,
                    issues := issues report2 @
                              [FoundDuplicates duplicates latest_fetch_timestamp]\<rparr>
          else report2)"

text \<open>
  The count as the specification words it: the number of (expression, date) pairs that
  appear more than once in the result of the join.
\<close>

definition pairs_appearing_more_than_once :: "(string \<times> date) list \<Rightarrow> nat" where
  "pairs_appearing_more_than_once combos =
     length (filter (\<lambda>k. 1 < count_list combos k) (remdups combos))"

subsection \<open>Properties of the tables\<close>

text \<open>
  The versions stored for an (expression, date), in insertion order; "one more than the
  greatest existing version, 1 when there is none"; a table whose versions are 1, 2, ..., N
  for every (expression, date); the uniqueness constraint of the raw table on
  (expression, date, version); and: every row of \<open>new\<close>, added in order after
  \<open>session\<close>, got one more than the greatest version stored before it.
\<close>

definition versions_of :: "'f RawData list \<Rightarrow> string \<Rightarrow> date \<Rightarrow> int list" where
  "versions_of session e d =
     map raw_version (filter (\<lambda>r. raw_expression r = e \<and> raw_date r = d) session)"

definition one_plus_max :: "int list \<Rightarrow> int" where
  "one_plus_max vs = (if vs = [] then 1 else 1 + Max (set vs))"

definition gapless :: "'f RawData list \<Rightarrow> bool" where
  "gapless session =
     list_all (\<lambda>r. let vs = versions_of session (raw_expression r) (raw_date r)
                   in vs = [1..int (length vs)]) session"

definition unique_versions :: "'f RawData list \<Rightarrow> bool" where
  "unique_versions session =
     distinct (map (\<lambda>r. (raw_expression r, raw_date r, raw_version r)) session)"

fun assigned_by_max :: "'f RawData list \<Rightarrow> 'f RawData list \<Rightarrow> bool" where
  "assigned_by_max session [] = True"
| "assigned_by_max session (r # new) =
     (raw_version r = one_plus_max (versions_of session (raw_expression r) (raw_date r)) \<and>
      assigned_by_max (session @ [r]) new)"

text \<open>
  The row that \<open>session_add_clean\<close> stores for a candidate; a candidate without a
  primary key of its own, or with one that no row of the table has; the session at the
  start of a load; the (expression, date) of a clean row; and the selection policy as the specification words it: a raw row with no
  clean row for its (expression, date), or with a key greater than the raw key that a
  clean row for its (expression, date) refers to.
\<close>

definition added_row :: "'f CleanData list \<Rightarrow> 'f CleanData \<Rightarrow> 'f CleanData" where
  "added_row session c =
     (if clean_data_id c = None
      then c\<lparr>clean_data_id := Some (next_id (map clean_data_id session))\<rparr> else c)"



definition combo :: "'f CleanData \<Rightarrow> string \<times> date" where
  "combo c = (clean_expression c, clean_date c)"

definition unprocessed_or_newer :: "'f CleanData list \<Rightarrow> 'f RawData \<Rightarrow> bool" where
  "unprocessed_or_newer cleans r =
     (list_all (\<lambda>c. \<not> (clean_expression c = raw_expression r \<and> clean_date c = raw_date r))
        cleans \<or>
      list_ex (\<lambda>c. clean_expression c = raw_expression r \<and> clean_date c = raw_date r \<and>
                   (case raw_data_id r of None \<Rightarrow> False | Some i \<Rightarrow> clean_raw_data_id c < i))
        cleans)"

subsection \<open>Example tables\<close>

text \<open>
  Values over the reals, with the check constraints of the clean table read over the
  reals, a source that always draws 80, a blob store that never fails, a clock that ticks
  once for each expression; Monday 2024-01-15 has the ordinal 738900.
\<close>

definition real_ops :: "real float_ops" where
  "real_ops = \<lparr>fmul = (*), sqrt252 = sqrt 252, gt0 = (\<lambda>v. 0 < v)\<rparr>"


definition example_env :: "real environment" where
  "example_env =
     \<lparr>api_values = (\<lambda>expression start_date end_date i. 80),
      blob_store = (\<lambda>i expression start_date end_date. Inr ''blob://market-data/x.json''),
      clock = (\<lambda>i. 1000 + int i)\<rparr>"

definition EUR_2y_1y :: string where
  "EUR_2y_1y = ''DB(COV,VOLSWAPTION,EUR,2y,1y,PAYER,VOLBPVOL)''"

definition example_raw :: "int \<Rightarrow> int \<Rightarrow> real RawData" where
  "example_raw i v =
     \<lparr>raw_data_id = Some i, raw_expression = EUR_2y_1y, raw_date = 738900, raw_value = 80,
      raw_fetch_timestamp = 900, raw_version = v, raw_ingestion_mode = ''default'',
      raw_source_file_uri = ''blob://market-data/x.json''\<rparr>"

definition example_clean :: "int option \<Rightarrow> real \<Rightarrow> int \<Rightarrow> real CleanData" where
  "example_clean i v rid =
     \<lparr>clean_data_id = i, clean_expression = EUR_2y_1y, clean_date = 738900,
      clean_currency = ''EUR'', clean_x = ''1y'', clean_y = ''2y'', clean_ref = ''Euribor'',
      clean_value = v, clean_raw_data_id = rid\<rparr>"

section \<open>Theorems\<close>

subsection \<open>Splitting and the expression grammar\<close>

lemmas parse_defs = parse_expression_def startswith_def endswith_def slice_3_minus1_def
  list_get_def select_tokens_def OptionExpiryEnum_values_def SwapTenorEnum_values_def
  map_reference_rate_def dict_get_def currency_ref_mapping_def

lemma split_on_no_sep: "sep \<notin> set t \<Longrightarrow> split_on sep t = [t]"
  by (induction t) auto

lemma split_on_token:
  "sep \<notin> set t \<Longrightarrow> split_on sep (t @ sep # rest) = t # split_on sep rest"
  by (induction t) auto

lemma split_on_join_commas:
  "ts \<noteq> [] \<Longrightarrow> \<forall>t \<in> set ts. CHR '','' \<notin> set t \<Longrightarrow>
   split_on CHR '','' (join_commas ts) = ts"
  by (induction ts rule: join_commas.induct) (auto simp: split_on_no_sep split_on_token)

lemma slice_DB_expression: "slice_3_minus1 (DB_expression ts) = join_commas ts"
  by (simp add: slice_3_minus1_def DB_expression_def butlast_append)

lemma startswith_DB_expression: "startswith (DB_expression ts) ''DB(''"
  by (simp add: startswith_def DB_expression_def)

lemma endswith_DB_expression: "endswith (DB_expression ts) '')''"
  by (simp add: endswith_def DB_expression_def)

lemma parts_DB_expression:
  "ts \<noteq> [] \<Longrightarrow> \<forall>t \<in> set ts. CHR '','' \<notin> set t \<Longrightarrow>
   split_on CHR '','' (slice_3_minus1 (DB_expression ts)) = ts"
  by (simp add: slice_DB_expression split_on_join_commas)

lemma parse_USDD_10y_5y:
  "parse_expression ''DB(COV,VOLSWAPTION,USDD,10y,5y,PAYER,VOLBPVOL)'' =
   Inr (''USD'', ''5y'', ''10y'', ''SOFR'')"
  by (simp add: parse_defs)

lemma parse_USD_2y_1y:
  "parse_expression ''DB(COV,VOLSWAPTION,USD,2y,1y,PAYER,VOLBPVOL)'' =
   Inr (''USD'', ''1y'', ''2y'', ''Libor'')"
  by (simp add: parse_defs)

lemma parse_GBP_SONIA_2y_1y:
  "parse_expression ''DB(COV,VOLSWAPTION,GBP,SONIA,2y,1y,PAYER,VOLBPVOL)'' =
   Inr (''GBP'', ''1y'', ''2y'', ''SOFR'')"
  by (simp add: parse_defs)

lemma transform_USDD_10y_5y:
  "transform_record fo
     \<lparr>raw_data_id = Some i,
      raw_expression = ''DB(COV,VOLSWAPTION,USDD,10y,5y,PAYER,VOLBPVOL)'',
      raw_date = d, raw_value = v, raw_fetch_timestamp = ts, raw_version = n,
      raw_ingestion_mode = m, raw_source_file_uri = u\<rparr> =
   (if gt0 fo (fmul fo v (sqrt252 fo))
    then Inr \<lparr>clean_data_id = None,
              clean_expression = ''DB(COV,VOLSWAPTION,USDD,10y,5y,PAYER,VOLBPVOL)'',
              clean_date = d, clean_currency = ''USD'', clean_x = ''5y'', clean_y = ''10y'',
              clean_ref = ''SOFR'', clean_value = fmul fo v (sqrt252 fo),
              clean_raw_data_id = i\<rparr>
    else Inl ValidationError)"
  by (simp add: transform_record_def parse_USDD_10y_5y apply_value_transformations_def
      CleanData_validate_def CurrencyEnum_values_def OptionExpiryEnum_values_def
      SwapTenorEnum_values_def)

lemma transform_USD_2y_1y:
  "transform_record fo
     \<lparr>raw_data_id = Some i,
      raw_expression = ''DB(COV,VOLSWAPTION,USD,2y,1y,PAYER,VOLBPVOL)'',
      raw_date = d, raw_value = v, raw_fetch_timestamp = ts, raw_version = n,
      raw_ingestion_mode = m, raw_source_file_uri = u\<rparr> =
   (if gt0 fo v
    then Inr \<lparr>clean_data_id = None,
              clean_expression = ''DB(COV,VOLSWAPTION,USD,2y,1y,PAYER,VOLBPVOL)'',
              clean_date = d, clean_currency = ''USD'', clean_x = ''1y'', clean_y = ''2y'',
              clean_ref = ''Libor'', clean_value = v, clean_raw_data_id = i\<rparr>
    else Inl ValidationError)"
  by (simp add: transform_record_def parse_USD_2y_1y apply_value_transformations_def
      CleanData_validate_def CurrencyEnum_values_def OptionExpiryEnum_values_def
      SwapTenorEnum_values_def)

text \<open>
  C1: the expression with the currency USDD, swap tenor 10y and option expiry 5y parses to
  the currency USD, expiry 5y, tenor 10y and rate SOFR, and the adjustment of a value for
  (USD, SOFR) is its product with the square root of 252; the expression with the
  currency USD, tenor 2y and expiry 1y parses to USD, 1y, 2y and Libor, and the adjustment
  for (USD, Libor) returns the value. So a raw record of the first expression with the
  value \<open>v\<close> becomes a clean record with the value \<open>v\<close> times the square root of 252, and
  one of the second expression a clean record with the value \<open>v\<close>, when the value
  passes the validation of the clean record.
\<close>

theorem C1_scenarios:
  "parse_expression ''DB(COV,VOLSWAPTION,USDD,10y,5y,PAYER,VOLBPVOL)'' =
     Inr (''USD'', ''5y'', ''10y'', ''SOFR'') \<and>
   apply_value_transformations fo v ''USD'' ''SOFR'' = fmul fo v (sqrt252 fo) \<and>
   parse_expression ''DB(COV,VOLSWAPTION,USD,2y,1y,PAYER,VOLBPVOL)'' =
     Inr (''USD'', ''1y'', ''2y'', ''Libor'') \<and>
   apply_value_transformations fo v ''USD'' ''Libor'' = v \<and>
   transform_record fo
     \<lparr>raw_data_id = Some i,
      raw_expression = ''DB(COV,VOLSWAPTION,USDD,10y,5y,PAYER,VOLBPVOL)'',
      raw_date = d, raw_value = v, raw_fetch_timestamp = ts, raw_version = n,
      raw_ingestion_mode = m, raw_source_file_uri = u\<rparr> =
     (if gt0 fo (fmul fo v (sqrt252 fo))
      then Inr \<lparr>clean_data_id = None,
                clean_expression = ''DB(COV,VOLSWAPTION,USDD,10y,5y,PAYER,VOLBPVOL)'',
                clean_date = d, clean_currency = ''USD'', clean_x = ''5y'', clean_y = ''10y'',
                clean_ref = ''SOFR'', clean_value = fmul fo v (sqrt252 fo),
                clean_raw_data_id = i\<rparr>
      else Inl ValidationError) \<and>
   transform_record fo
     \<lparr>raw_data_id = Some i,
      raw_expression = ''DB(COV,VOLSWAPTION,USD,2y,1y,PAYER,VOLBPVOL)'',
      raw_date = d, raw_value = v, raw_fetch_timestamp = ts, raw_version = n,
      raw_ingestion_mode = m, raw_source_file_uri = u\<rparr> =
     (if gt0 fo v
      then Inr \<lparr>clean_data_id = None,
                clean_expression = ''DB(COV,VOLSWAPTION,USD,2y,1y,PAYER,VOLBPVOL)'',
                clean_date = d, clean_currency = ''USD'', clean_x = ''1y'', clean_y = ''2y'',
                clean_ref = ''Libor'', clean_value = v, clean_raw_data_id = i\<rparr>
      else Inl ValidationError)"
  by (intro conjI parse_USDD_10y_5y parse_USD_2y_1y transform_USDD_10y_5y transform_USD_2y_1y)
    (simp_all add: apply_value_transformations_def)

theorem C1_scenarios_witness:
  "apply_value_transformations real_ops 100 ''USD'' ''SOFR'' = 100 * sqrt 252 \<and>
   apply_value_transformations real_ops 100 ''USD'' ''Libor'' = 100 \<and>
   transform_record real_ops
     \<lparr>raw_data_id = Some 1,
      raw_expression = ''DB(COV,VOLSWAPTION,USDD,10y,5y,PAYER,VOLBPVOL)'',
      raw_date = 738900, raw_value = 100, raw_fetch_timestamp = 900, raw_version = 1,
      raw_ingestion_mode = ''default'', raw_source_file_uri = ''blob://market-data/x.json''\<rparr> =
     Inr \<lparr>clean_data_id = None,
          clean_expression = ''DB(COV,VOLSWAPTION,USDD,10y,5y,PAYER,VOLBPVOL)'',
          clean_date = 738900, clean_currency = ''USD'', clean_x = ''5y'', clean_y = ''10y'',
          clean_ref = ''SOFR'', clean_value = 100 * sqrt 252, clean_raw_data_id = 1\<rparr>"
  using C1_scenarios [of real_ops 100 1 738900 900 1 "''default''"
      "''blob://market-data/x.json''"]
  by (simp add: real_ops_def)

text \<open>
  C5: the adjustment for (USD, SOFR) is one float multiplication of the value with the
  float square root of 252; for every other (currency, rate) it returns the value. The
  8-token GBP expression with the SONIA indicator parses to the rate SOFR with the
  currency GBP, so its value is returned as it is.
\<close>

theorem C5_adjust:
  "apply_value_transformations fo v ''USD'' ''SOFR'' = fmul fo v (sqrt252 fo) \<and>
   ((c, r) \<noteq> (''USD'', ''SOFR'') \<longrightarrow> apply_value_transformations fo v c r = v) \<and>
   parse_expression ''DB(COV,VOLSWAPTION,GBP,SONIA,2y,1y,PAYER,VOLBPVOL)'' =
     Inr (''GBP'', ''1y'', ''2y'', ''SOFR'') \<and>
   apply_value_transformations fo v ''GBP'' ''SOFR'' = v"
  by (simp add: parse_GBP_SONIA_2y_1y apply_value_transformations_def)

theorem C5_adjust_witness:
  "(''GBP'', ''SOFR'') \<noteq> (''USD'', ''SOFR'') \<and>
   apply_value_transformations real_ops 100 ''GBP'' ''SOFR'' = 100 \<and>
   apply_value_transformations real_ops 100 ''USD'' ''SOFR'' = 100 * sqrt 252"
  using C5_adjust [of real_ops 100 "''GBP''" "''SOFR''"]
  by (simp add: real_ops_def)

text \<open>
  C8, as the code has it: a currency without an entry in the table gets the
  \<^verbatim>\<open>ValueError\<close> "Could not map reference rate", and a GBP or CHF body of 8 tokens
  with an indicator other than SONIA and SARON is refused before the lookup, as "Invalid
  reference indicator". But the currency GBP with the indicator SARON, and the currency
  CHF with the indicator SONIA, pass that check and leave \<^verbatim>\<open>_map_reference_rate\<close>
  with a \<^verbatim>\<open>KeyError\<close> of the indicator.
\<close>

theorem C8_indicator_of_other_currency:
  "parse_expression ''DB(COV,VOLSWAPTION,GBP,SARON,2y,1y,PAYER,VOLBPVOL)'' =
     Inl (KeyError ''SARON'') \<and>
   parse_expression ''DB(COV,VOLSWAPTION,CHF,SONIA,2y,1y,PAYER,VOLBPVOL)'' =
     Inl (KeyError ''SONIA'') \<and>
   parse_expression ''DB(COV,VOLSWAPTION,JPY,2y,1y,PAYER,VOLBPVOL)'' =
     Inl (ValueError NoReferenceRate) \<and>
   parse_expression ''DB(COV,VOLSWAPTION,JPY,TONA,2y,1y,PAYER,VOLBPVOL)'' =
     Inl (ValueError NoReferenceRate) \<and>
   parse_expression ''DB(COV,VOLSWAPTION,GBP,TONA,2y,1y,PAYER,VOLBPVOL)'' =
     Inl (ValueError BadIndicator)"
  by (simp add: parse_defs)

theorem C8_indicator_of_other_currency_witness:
  "parse_expression ''DB(COV,VOLSWAPTION,GBP,SARON,2y,1y,PAYER,VOLBPVOL)'' \<noteq>
     Inl (ValueError NoReferenceRate) \<and>
   parse_expression ''DB(COV,VOLSWAPTION,CHF,SONIA,2y,1y,PAYER,VOLBPVOL)'' \<noteq>
     Inl (ValueError NoReferenceRate)"
  using C8_indicator_of_other_currency by simp

text \<open>
  C9, as the code has it: in a body of 7 tokens with a mapped currency and valid tenors,
  tokens 5 and 6 are not read: whatever they are, the expression parses, to the same
  result.
\<close>

theorem C9_trailing_tokens_ignored:
  assumes "c \<in> set [''USD'', ''USDD'', ''EUR'', ''GBP'', ''CHF'']"
      and "x \<in> set OptionExpiryEnum_values"
      and "y \<in> set SwapTenorEnum_values"
      and "CHR '','' \<notin> set t5" and "CHR '','' \<notin> set t6"
  shows "parse_expression (DB_expression [''COV'', ''VOLSWAPTION'', c, y, x, t5, t6]) =
         Inr (if c = ''USDD'' then ''USD'' else c, x, y,
              if c = ''USD'' then ''Libor'' else if c = ''USDD'' then ''SOFR''
              else if c = ''EUR'' then ''Euribor'' else ''Libor'')"
proof -
  let ?ts = "[''COV'', ''VOLSWAPTION'', c, y, x, t5, t6]"
  have nc: "\<forall>t \<in> set ?ts. CHR '','' \<notin> set t"
    using assms by (auto simp: OptionExpiryEnum_values_def SwapTenorEnum_values_def)
  have parts: "split_on CHR '','' (slice_3_minus1 (DB_expression ?ts)) = ?ts"
    by (rule parts_DB_expression[OF _ nc]) simp
  have x': "x \<noteq> []" using assms(2) by (auto simp: OptionExpiryEnum_values_def)
  have y': "y \<noteq> []" using assms(3) by (auto simp: SwapTenorEnum_values_def)
  show ?thesis
    unfolding parse_expression_def
    using assms(1,2,3) x' y'
    by (simp add: startswith_DB_expression endswith_DB_expression parts Let_def
        list_get_def select_tokens_def map_reference_rate_def dict_get_def
        currency_ref_mapping_def) auto
qed

theorem C9_trailing_tokens_ignored_witness:
  "''USD'' \<in> set [''USD'', ''USDD'', ''EUR'', ''GBP'', ''CHF''] \<and>
   ''1y'' \<in> set OptionExpiryEnum_values \<and> ''2y'' \<in> set SwapTenorEnum_values \<and>
   CHR '','' \<notin> set ''FOO'' \<and> CHR '','' \<notin> set ''BAR'' \<and>
   DB_expression [''COV'', ''VOLSWAPTION'', ''USD'', ''2y'', ''1y'', ''FOO'', ''BAR''] =
     ''DB(COV,VOLSWAPTION,USD,2y,1y,FOO,BAR)'' \<and>
   parse_expression
     (DB_expression [''COV'', ''VOLSWAPTION'', ''USD'', ''2y'', ''1y'', ''FOO'', ''BAR'']) =
     Inr (''USD'', ''1y'', ''2y'', ''Libor'')"
  using C9_trailing_tokens_ignored [of "''USD''" "''1y''" "''2y''" "''FOO''" "''BAR''"]
  by (simp add: OptionExpiryEnum_values_def SwapTenorEnum_values_def DB_expression_def)

theorem C9_trailing_tokens_counterexample:
  "parse_expression ''DB(COV,VOLSWAPTION,USD,2y,1y,FOO,BAR)'' =
     Inr (''USD'', ''1y'', ''2y'', ''Libor'')"
  by (simp add: parse_defs)

subsection \<open>Extractor: versions\<close>

lemma versions_of_empty:
  "\<forall>r \<in> set session. \<not> (raw_expression r = e \<and> raw_date r = d) \<Longrightarrow>
   versions_of session e d = []"
  by (induction session) (auto simp: versions_of_def)

lemma versions_of_nonempty:
  "versions_of session e d \<noteq> [] \<Longrightarrow>
   \<exists>r \<in> set session. raw_expression r = e \<and> raw_date r = d"
  by (induction session) (auto simp: versions_of_def split: if_splits)

lemma gapless_iff:
  "gapless session \<longleftrightarrow> (\<forall>e d. versions_of session e d = [1..int (length (versions_of session e d))])"
proof
  assume g: "gapless session"
  show "\<forall>e d. versions_of session e d = [1..int (length (versions_of session e d))]"
  proof (intro allI)
    fix e d
    show "versions_of session e d = [1..int (length (versions_of session e d))]"
    proof (cases "versions_of session e d = []")
      case True then show ?thesis by simp
    next
      case False
      then obtain r where "r \<in> set session" "raw_expression r = e" "raw_date r = d"
        using versions_of_nonempty by blast
      with g show ?thesis by (auto simp: gapless_def list_all_iff Let_def)
    qed
  qed
next
  assume "\<forall>e d. versions_of session e d = [1..int (length (versions_of session e d))]"
  then show "gapless session" by (simp add: gapless_def list_all_iff Let_def)
qed

lemma versions_of_append:
  "versions_of (s @ t) e d = versions_of s e d @ versions_of t e d"
  by (simp add: versions_of_def)

lemma versions_of_add:
  "versions_of (session_add_raw s r) e d =
   versions_of s e d @ (if raw_expression r = e \<and> raw_date r = d then [raw_version r] else [])"
  by (simp add: versions_of_def session_add_raw_def)

lemma next_version_versions_of:
  "next_version s e d =
     (let v = (if versions_of s e d = [] then 0 else Max (set (versions_of s e d))) + 1
      in if v = 0 then 1 else v)"
  by (simp add: next_version_def versions_of_def)

lemma next_version_gapless:
  assumes "versions_of s e d = [1..int (length (versions_of s e d))]"
  shows "next_version s e d = int (length (versions_of s e d)) + 1"
proof (cases "versions_of s e d = []")
  case True
  then show ?thesis by (simp add: next_version_versions_of)
next
  case False
  let ?n = "int (length (versions_of s e d))"
  have n: "1 \<le> ?n" using False by (cases "versions_of s e d") auto
  have "set (versions_of s e d) = {1..?n}" using assms by (metis set_upto)
  then have "Max (set (versions_of s e d)) = ?n" using n by (intro Max_eqI) auto
  then show ?thesis using False n by (simp add: next_version_versions_of Let_def)
qed

lemma upto_snoc: "0 \<le> n \<Longrightarrow> [1..n] @ [n + 1] = [1..n + 1]"
  by (simp add: upto_rec2)

lemma gapless_add:
  assumes g: "gapless s" and v: "raw_version r = next_version s (raw_expression r) (raw_date r)"
  shows "gapless (session_add_raw s r)"
  unfolding gapless_iff
proof (intro allI)
  fix e d
  have old: "versions_of s e d = [1..int (length (versions_of s e d))]"
    using g by (simp add: gapless_iff)
  show "versions_of (session_add_raw s r) e d =
        [1..int (length (versions_of (session_add_raw s r) e d))]"
  proof (cases "raw_expression r = e \<and> raw_date r = d")
    case False
    then have "versions_of (session_add_raw s r) e d = versions_of s e d"
      by (simp add: versions_of_add)
    then show ?thesis using old by simp
  next
    case True
    let ?n = "int (length (versions_of s e d))"
    have "raw_version r = ?n + 1"
      using True v next_version_gapless[OF old] by simp
    then have "versions_of (session_add_raw s r) e d = versions_of s e d @ [?n + 1]"
      using True by (simp add: versions_of_add)
    also have "\<dots> = [1..?n] @ [?n + 1]" using old by simp
    also have "\<dots> = [1..?n + 1]" by (rule upto_snoc) simp
    finally show ?thesis by simp
  qed
qed


lemma next_version_gt:
  assumes "v \<in> set (versions_of s e d)"
  shows "v < next_version s e d"
proof -
  let ?vs = "versions_of s e d"
  have ne: "?vs \<noteq> []" using assms by auto
  have le: "v \<le> Max (set ?vs)" using assms by simp
  show ?thesis using ne le by (auto simp: next_version_versions_of Let_def)
qed

lemma unique_add:
  assumes u: "unique_versions s"
      and v: "raw_version r = next_version s (raw_expression r) (raw_date r)"
  shows "unique_versions (session_add_raw s r)"
proof -
  have "(raw_expression r, raw_date r, raw_version r) \<notin>
        (\<lambda>r. (raw_expression r, raw_date r, raw_version r)) ` set s"
  proof
    assume "(raw_expression r, raw_date r, raw_version r) \<in>
            (\<lambda>r. (raw_expression r, raw_date r, raw_version r)) ` set s"
    then obtain q where q: "q \<in> set s" "raw_expression q = raw_expression r"
      "raw_date q = raw_date r" "raw_version q = raw_version r" by auto
    then have "raw_version q \<in> set (versions_of s (raw_expression r) (raw_date r))"
      unfolding versions_of_def by (intro image_eqI[where x = q] | simp)+
    from next_version_gt[OF this] show False using q v by simp
  qed
  then show ?thesis using u by (auto simp: unique_versions_def session_add_raw_def)
qed

lemma next_version_one_plus_max:
  assumes "\<forall>r \<in> set s. 1 \<le> raw_version r"
  shows "next_version s e d = one_plus_max (versions_of s e d)"
proof (cases "versions_of s e d = []")
  case True
  then show ?thesis by (simp add: next_version_versions_of one_plus_max_def)
next
  case False
  then obtain v where "v \<in> set (versions_of s e d)" by (cases "versions_of s e d") auto
  moreover from this have "1 \<le> v" using assms by (auto simp: versions_of_def)
  ultimately have "1 \<le> Max (set (versions_of s e d))"
    by (meson List.finite_set Max_ge order_trans)
  then show ?thesis using False by (simp add: next_version_versions_of one_plus_max_def Let_def)
qed


lemma insert_rows_gapless:
  "gapless s \<Longrightarrow> gapless (fst (insert_rows fo s df e u m ts n))"
proof (induction df arbitrary: s n)
  case Nil
  then show ?case by simp
next
  case (Cons row df)
  obtain d v where row: "row = (d, v)" by (cases row)
  show ?case
    using Cons.prems
    by (auto simp: row Let_def intro!: Cons.IH gapless_add)
qed

lemma insert_rows_unique:
  "unique_versions s \<Longrightarrow> unique_versions (fst (insert_rows fo s df e u m ts n))"
proof (induction df arbitrary: s n)
  case Nil
  then show ?case by simp
next
  case (Cons row df)
  obtain d v where row: "row = (d, v)" by (cases row)
  show ?case
    using Cons.prems
    by (auto simp: row Let_def intro!: Cons.IH unique_add)
qed

lemma insert_rows_shape:
  assumes "\<forall>r \<in> set s. 1 \<le> raw_version r"
  shows "\<exists>new. fst (insert_rows fo s df e u m ts n) = s @ new \<and> assigned_by_max s new \<and>
               (\<forall>r \<in> set new. raw_expression r = e \<and> 1 \<le> raw_version r) \<and>
               map raw_date new = take (length new) (map fst df)"
  using assms
proof (induction df arbitrary: s n)
  case Nil
  then show ?case by simp
next
  case (Cons row df)
  obtain d v where row: "row = (d, v)" by (cases row)
  let ?r = "\<lparr>raw_data_id = None, raw_expression = e, raw_date = d, raw_value = v,
             raw_fetch_timestamp = ts, raw_version = next_version s e d,
             raw_ingestion_mode = RunModeEnum_value m, raw_source_file_uri = u\<rparr>"
  let ?r1 = "?r\<lparr>raw_data_id := Some (next_id (map raw_data_id s))\<rparr>"
  show ?case
  proof (cases "gt0 fo v \<and> RawData_validate fo ?r")
    case False
    then have "fst (insert_rows fo s (row # df) e u m ts n) = s @ []"
      by (auto simp: row Let_def)
    then show ?thesis by (intro exI[of _ "[]"]) simp
  next
    case True
    have add: "session_add_raw s ?r = s @ [?r1]" by (simp add: session_add_raw_def)
    have pos: "1 \<le> raw_version ?r1" using True by (simp add: RawData_validate_def)
    then have "\<forall>r \<in> set (s @ [?r1]). 1 \<le> raw_version r" using Cons.prems by auto
    from Cons.IH[OF this, of "n + 1"] obtain new where
      new: "fst (insert_rows fo (s @ [?r1]) df e u m ts (n + 1)) = (s @ [?r1]) @ new"
        "assigned_by_max (s @ [?r1]) new"
        "\<forall>r \<in> set new. raw_expression r = e \<and> 1 \<le> raw_version r"
        "map raw_date new = take (length new) (map fst df)" by blast
    have step: "fst (insert_rows fo s (row # df) e u m ts n) = s @ (?r1 # new)"
      using True new(1) add by (simp add: row Let_def)
    have ver: "raw_version ?r1 = one_plus_max (versions_of s (raw_expression ?r1) (raw_date ?r1))"
      using next_version_one_plus_max[OF Cons.prems] by simp
    show ?thesis
      using step ver new(2,3,4) pos
      by (intro exI[of _ "?r1 # new"]) (simp add: row)
  qed
qed


lemma insert_rows_append:
  "\<exists>new. fst (insert_rows fo s df e u m ts n) = s @ new \<and>
         (\<forall>r \<in> set new. raw_expression r = e) \<and>
         map raw_date new = take (length new) (map fst df)"
proof (induction df arbitrary: s n)
  case Nil
  then show ?case by simp
next
  case (Cons row df)
  obtain d v where row: "row = (d, v)" by (cases row)
  let ?r = "\<lparr>raw_data_id = None, raw_expression = e, raw_date = d, raw_value = v,
             raw_fetch_timestamp = ts, raw_version = next_version s e d,
             raw_ingestion_mode = RunModeEnum_value m, raw_source_file_uri = u\<rparr>"
  let ?r1 = "?r\<lparr>raw_data_id := Some (next_id (map raw_data_id s))\<rparr>"
  show ?case
  proof (cases "gt0 fo v \<and> RawData_validate fo ?r")
    case False
    then have "fst (insert_rows fo s (row # df) e u m ts n) = s @ []"
      by (auto simp: row Let_def)
    then show ?thesis by (intro exI[of _ "[]"]) simp
  next
    case True
    have add: "session_add_raw s ?r = s @ [?r1]" by (simp add: session_add_raw_def)
    from Cons.IH[of "s @ [?r1]" "n + 1"] obtain new where
      new: "fst (insert_rows fo (s @ [?r1]) df e u m ts (n + 1)) = (s @ [?r1]) @ new"
        "\<forall>r \<in> set new. raw_expression r = e"
        "map raw_date new = take (length new) (map fst df)" by blast
    have step: "fst (insert_rows fo s (row # df) e u m ts n) = s @ (?r1 # new)"
      using True new(1) add by (simp add: row Let_def)
    show ?thesis
      using step new(2,3)
      by (intro exI[of _ "?r1 # new"]) (simp add: row)
  qed
qed

lemma extract_expression_session:
  "fst (extract_expression fo env session i e sd ed mode) = session \<or>
   (\<exists>u. should_fetch_data session e sd ed mode = Inr True \<and>
        fst (extract_expression fo env session i e sd ed mode) =
        fst (insert_raw_data fo session (get_historical_data (api_values env) e sd ed)
               e u mode (clock env i)))"
proof (cases "APIRequest_validate e sd ed \<and> should_fetch_data session e sd ed mode = Inr True
              \<and> get_historical_data (api_values env) e sd ed \<noteq> []")
  case False
  then have "fst (extract_expression fo env session i e sd ed mode) = session"
    by (auto simp: extract_expression_def Let_def split: sum.splits bool.splits)
  then show ?thesis by simp
next
  case True
  show ?thesis
  proof (cases "blob_store env i e sd ed")
    case (Inl err)
    then have "fst (extract_expression fo env session i e sd ed mode) = session"
      using True by (simp add: extract_expression_def Let_def)
    then show ?thesis by simp
  next
    case (Inr u)
    then have "fst (extract_expression fo env session i e sd ed mode) =
        fst (insert_raw_data fo session (get_historical_data (api_values env) e sd ed)
               e u mode (clock env i))"
      using True by (simp add: extract_expression_def Let_def split: prod.splits sum.splits)
    then show ?thesis using True by blast
  qed
qed

lemma extract_expression_preserves:
  assumes "\<And>s df e u m ts. P s \<Longrightarrow> P (fst (insert_raw_data fo s df e u m ts))"
      and "P session"
  shows "P (fst (extract_expression fo env session i e sd ed mode))"
  using extract_expression_session[of fo env session i e sd ed mode] assms
  by auto

lemma extract_loop_preserves:
  assumes "\<And>s df e u m ts. P s \<Longrightarrow> P (fst (insert_raw_data fo s df e u m ts))"
      and "P session"
  shows "P (fst (extract_loop fo env sd ed mode i es (session, metrics)))"
  using assms(2)
proof (induction es arbitrary: session metrics i)
  case Nil
  then show ?case by simp
next
  case (Cons e es)
  obtain s1 res where one: "extract_expression fo env session i e sd ed mode = (s1, res)"
    by (cases "extract_expression fo env session i e sd ed mode")
  have "P s1"
    using extract_expression_preserves[of P fo session env i e sd ed mode, OF assms(1) Cons.prems]
    by (simp add: one)
  then show ?case
    by (auto simp: one split: sum.splits option.splits prod.splits intro!: Cons.IH)
qed

lemma extract_data_preserves:
  assumes "\<And>s df e u m ts. P s \<Longrightarrow> P (fst (insert_raw_data fo s df e u m ts))"
      and "P session"
  shows "P (fst (extract_data fo env session es sd ed mode))"
proof -
  let ?m0 = "\<lparr>expressions_processed = 0, rows_fetched = 0, rows_inserted = 0,
              duplicates_detected = 0, errors = 0\<rparr>"
  have "P (fst (extract_loop fo env sd ed mode 0 es (session, ?m0)))"
    by (rule extract_loop_preserves[OF assms])
  then show ?thesis
    using assms(2) by (auto simp: extract_data_def split: prod.splits)
qed

lemma extract_data_gapless:
  "gapless session \<Longrightarrow> gapless (fst (extract_data fo env session es sd ed mode))"
  by (rule extract_data_preserves) (simp_all add: insert_raw_data_def insert_rows_gapless)

lemma extract_data_unique:
  "unique_versions session \<Longrightarrow> unique_versions (fst (extract_data fo env session es sd ed mode))"
  by (rule extract_data_preserves) (simp_all add: insert_raw_data_def insert_rows_unique)


lemma bdate_range_same: "bdate_range d d = (if weekday d < 5 then [d] else [])"
  by (simp add: bdate_range_def)

lemma get_historical_data_dates:
  "map fst (get_historical_data rnd e sd ed) = bdate_range sd ed"
  by (simp add: get_historical_data_def Let_def)

lemma should_fetch_capped:
  "mode \<in> {DEFAULT, OLD_CODES} \<Longrightarrow>
   should_fetch_data s e sd ed mode = Inr (length (versions_of s e sd) < 3)"
  by (auto simp: should_fetch_data_def versions_of_def)

lemma should_fetch_historical: "should_fetch_data s e sd ed HISTORICAL = Inr True"
  by (simp add: should_fetch_data_def)

lemma insert_same_day:
  "\<exists>new. fst (insert_raw_data fo s (get_historical_data rnd e d d) e u m ts) = s @ new \<and>
         length new \<le> 1 \<and> (\<forall>r \<in> set new. raw_expression r = e \<and> raw_date r = d)"
proof -
  let ?df = "get_historical_data rnd e d d"
  obtain new where new: "fst (insert_rows fo s ?df e u m ts 0) = s @ new"
    "\<forall>r \<in> set new. raw_expression r = e"
    "map raw_date new = take (length new) (map fst ?df)"
    using insert_rows_append[of fo s ?df e u m ts 0] by blast
  have dates: "map raw_date new = take (length new) (if weekday d < 5 then [d] else [])"
    using new(3) by (simp add: get_historical_data_dates bdate_range_same)
  have len: "length new \<le> 1"
    using arg_cong[OF dates, of length] by (simp split: if_splits)
  have "set (map raw_date new) \<subseteq> {d}"
    using dates set_take_subset[of "length new" "if weekday d < 5 then [d] else []"]
    by (auto split: if_splits)
  then have "\<forall>r \<in> set new. raw_date r = d" by auto
  then show ?thesis using new(1,2) len by (auto simp: insert_raw_data_def)
qed

lemma extract_expression_cap:
  assumes mode: "mode \<in> {DEFAULT, OLD_CODES}"
  shows "length (versions_of (fst (extract_expression fo env s i e d d mode)) e' d') \<le>
         max 3 (length (versions_of s e' d'))"
proof -
  let ?s' = "fst (extract_expression fo env s i e d d mode)"
  consider (same) "?s' = s"
    | (fetch) u where "should_fetch_data s e d d mode = Inr True"
        "?s' = fst (insert_raw_data fo s (get_historical_data (api_values env) e d d)
                  e u mode (clock env i))"
    using extract_expression_session[of fo env s i e d d mode] by blast
  then show ?thesis
  proof cases
    case same
    then show ?thesis by simp
  next
    case fetch
    have lt: "length (versions_of s e d) < 3"
      using fetch(1) should_fetch_capped[OF mode, of s e d d] by simp
    obtain new where new: "?s' = s @ new" "length new \<le> 1"
      "\<forall>r \<in> set new. raw_expression r = e \<and> raw_date r = d"
      using insert_same_day[of fo s "api_values env" e d u mode "clock env i"] fetch(2)
      by auto
    have app: "length (versions_of ?s' e' d') =
               length (versions_of s e' d') + length (versions_of new e' d')"
      by (simp add: new(1) versions_of_append)
    show ?thesis
    proof (cases "e' = e \<and> d' = d")
      case True
      have "length (versions_of new e' d') \<le> 1"
        using new(2) by (simp add: versions_of_def le_trans[OF length_filter_le])
      then show ?thesis using lt True app by auto
    next
      case False
      then have "versions_of new e' d' = []"
        using new(3) by (intro versions_of_empty) auto
      then show ?thesis using app by simp
    qed
  qed
qed

lemma extract_loop_Cons:
  "\<exists>m1. extract_loop fo env sd ed mode i (e # es) (s, m) =
        extract_loop fo env sd ed mode (Suc i) es
          (fst (extract_expression fo env s i e sd ed mode), m1)"
proof (cases "extract_expression fo env s i e sd ed mode")
  case (Pair s1 res)
  show ?thesis
  proof (cases res)
    case (Inl err)
    then show ?thesis using Pair by simp (rule exI, rule refl)
  next
    case (Inr b)
    show ?thesis
    proof (cases b)
      case None
      then show ?thesis using Pair Inr by simp (rule exI, rule refl)
    next
      case (Some p)
      then show ?thesis using Pair Inr by (cases p) (simp, rule exI, rule refl)
    qed
  qed
qed

lemma extract_loop_cap:
  assumes mode: "mode \<in> {DEFAULT, OLD_CODES}"
  shows "length (versions_of (fst (extract_loop fo env d d mode i es (s, m))) e' d') \<le>
         max 3 (length (versions_of s e' d'))"
proof (induction es arbitrary: s m i)
  case Nil
  then show ?case by simp
next
  case (Cons e es)
  define s1 where "s1 = fst (extract_expression fo env s i e d d mode)"
  have step: "length (versions_of s1 e' d') \<le> max 3 (length (versions_of s e' d'))"
    unfolding s1_def by (rule extract_expression_cap[OF mode])
  obtain m1 where loop: "extract_loop fo env d d mode i (e # es) (s, m) =
      extract_loop fo env d d mode (Suc i) es (s1, m1)"
    unfolding s1_def using extract_loop_Cons by blast
  have "length (versions_of (fst (extract_loop fo env d d mode (Suc i) es (s1, m1))) e' d') \<le>
        max 3 (length (versions_of s1 e' d'))"
    by (rule Cons.IH)
  then show ?case using step unfolding loop by simp
qed

lemma extract_data_cap:
  assumes mode: "mode \<in> {DEFAULT, OLD_CODES}"
  shows "length (versions_of (fst (extract_data fo env s es sd ed mode)) e' d') \<le>
         max 3 (length (versions_of s e' d'))"
proof (cases "sd = ed")
  case False
  then show ?thesis using mode by (auto simp: extract_data_def)
next
  case True
  let ?m0 = "\<lparr>expressions_processed = 0, rows_fetched = 0, rows_inserted = 0,
              duplicates_detected = 0, errors = 0\<rparr>"
  have "fst (extract_data fo env s es sd ed mode) =
        fst (extract_loop fo env ed ed mode 0 es (s, ?m0))"
    using True by (simp add: extract_data_def split: prod.splits)
  then show ?thesis using extract_loop_cap[OF mode] by simp
qed

lemma extract_expression_noop:
  assumes "mode \<in> {DEFAULT, OLD_CODES}" and "3 \<le> length (versions_of s e sd)"
  shows "fst (extract_expression fo env s i e sd ed mode) = s"
  using extract_expression_session[of fo env s i e sd ed mode]
    should_fetch_capped[OF assms(1), of s e sd ed] assms(2)
  by auto

lemma extract_loop_noop:
  assumes mode: "mode \<in> {DEFAULT, OLD_CODES}"
      and full: "\<forall>e \<in> set es. 3 \<le> length (versions_of s e sd)"
  shows "fst (extract_loop fo env sd ed mode i es (s, m)) = s"
  using full
proof (induction es arbitrary: m i)
  case Nil
  then show ?case by simp
next
  case (Cons e es)
  have s1: "fst (extract_expression fo env s i e sd ed mode) = s"
    using extract_expression_noop[OF mode, of s e sd fo env i ed] Cons.prems by simp
  obtain m1 where loop: "extract_loop fo env sd ed mode i (e # es) (s, m) =
      extract_loop fo env sd ed mode (Suc i) es (s, m1)"
    using extract_loop_Cons[of fo env sd ed mode i e es s m] by (auto simp: s1)
  show ?case using Cons.IH[of "Suc i" m1] Cons.prems unfolding loop by simp
qed

lemma extract_data_noop:
  assumes mode: "mode \<in> {DEFAULT, OLD_CODES}"
      and full: "\<forall>e \<in> set es. 3 \<le> length (versions_of s e sd)"
  shows "fst (extract_data fo env s es sd ed mode) = s"
proof -
  let ?m0 = "\<lparr>expressions_processed = 0, rows_fetched = 0, rows_inserted = 0,
              duplicates_detected = 0, errors = 0\<rparr>"
  have "fst (extract_loop fo env sd ed mode 0 es (s, ?m0)) = s"
    by (rule extract_loop_noop[OF mode full])
  then show ?thesis
    by (cases "extract_loop fo env sd ed mode 0 es (s, ?m0)") (simp add: extract_data_def)
qed

lemmas extract_defs = extract_data_def extract_expression_def APIRequest_validate_def
  validate_expression_format_def validate_date_range_def startswith_def endswith_def
  slice_3_minus1_def should_fetch_data_def get_historical_data_def bdate_range_def weekday_def
  insert_raw_data_def next_version_def RawData_validate_def RunModeEnum_values_def
  session_add_raw_def next_id_def List.map_filter_def

lemmas example_defs = real_ops_def example_env_def example_raw_def example_clean_def
  EUR_2y_1y_def

text \<open>
  C2: in a table whose versions are at least 1 (the check constraint of the table), every
  row that \<^verbatim>\<open>_insert_raw_data\<close> adds gets one more than the greatest version stored
  for its (expression, date) before it, 1 when there is none. A call of the extractor
  keeps the uniqueness of (expression, date, version), and it keeps the versions of every
  (expression, date) equal to 1, 2, ..., N in insertion order, whatever rows of other
  (expression, date) pairs lie between them; the empty table is such a table.
\<close>

theorem C2_version_assignment:
  "((\<forall>r \<in> set session. 1 \<le> raw_version r) \<longrightarrow>
      (\<exists>new. fst (insert_raw_data fo session df e u m ts) = session @ new \<and>
             assigned_by_max session new)) \<and>
   (unique_versions session \<longrightarrow>
      unique_versions (fst (extract_data fo env session es sd ed mode))) \<and>
   (gapless session \<longrightarrow>
      gapless (fst (extract_data fo env session es sd ed mode)) \<and>
      versions_of (fst (extract_data fo env session es sd ed mode)) e' d' =
        [1..int (length (versions_of (fst (extract_data fo env session es sd ed mode)) e' d'))]) \<and>
   gapless ([] :: 'f RawData list)"
proof (intro conjI impI)
  assume "\<forall>r \<in> set session. 1 \<le> raw_version r"
  from insert_rows_shape[OF this, of fo df e u m ts 0]
  show "\<exists>new. fst (insert_raw_data fo session df e u m ts) = session @ new \<and>
              assigned_by_max session new"
    unfolding insert_raw_data_def by blast
next
  assume "unique_versions session"
  then show "unique_versions (fst (extract_data fo env session es sd ed mode))"
    by (rule extract_data_unique)
next
  assume "gapless session"
  then show g: "gapless (fst (extract_data fo env session es sd ed mode))"
    by (rule extract_data_gapless)
  then show "versions_of (fst (extract_data fo env session es sd ed mode)) e' d' =
      [1..int (length (versions_of (fst (extract_data fo env session es sd ed mode)) e' d'))]"
    by (simp add: gapless_iff)
next
  show "gapless ([] :: 'f RawData list)" by (simp add: gapless_def)
qed

theorem C2_version_assignment_witness:
  "list_all (\<lambda>r. 1 \<le> raw_version r) [example_raw 1 1] \<and>
   unique_versions [example_raw 1 1] \<and>
   gapless [example_raw 1 1] \<and>
   map raw_version
     (fst (insert_raw_data real_ops [example_raw 1 1] [(738900, 81)] EUR_2y_1y ''u'' DEFAULT
            1000)) = [1, 2] \<and>
   (\<exists>new. fst (insert_raw_data real_ops [example_raw 1 1] [(738900, 81)] EUR_2y_1y ''u''
                DEFAULT 1000) = [example_raw 1 1] @ new \<and>
          assigned_by_max [example_raw 1 1] new) \<and>
   unique_versions
     (fst (extract_data real_ops example_env [example_raw 1 1] [EUR_2y_1y] 738900 738900
            DEFAULT)) \<and>
   gapless
     (fst (extract_data real_ops example_env [example_raw 1 1] [EUR_2y_1y] 738900 738900
            DEFAULT)) \<and>
   versions_of
     (fst (extract_data real_ops example_env [example_raw 1 1] [EUR_2y_1y] 738900 738900
            DEFAULT)) EUR_2y_1y 738900 = [1, 2]"
proof -
  note t = C2_version_assignment [of "[example_raw 1 1]" real_ops "[(738900, 81)]" EUR_2y_1y
      "''u''" DEFAULT 1000 example_env "[EUR_2y_1y]" 738900 738900 DEFAULT EUR_2y_1y 738900]
  have p: "\<forall>r \<in> set [example_raw 1 1]. 1 \<le> raw_version r"
    by (simp add: example_defs)
  have u: "unique_versions [example_raw 1 1]"
    by (simp add: unique_versions_def)
  have g: "gapless [example_raw 1 1]"
    by (simp add: gapless_def versions_of_def example_defs)
  have i: "map raw_version
     (fst (insert_raw_data real_ops [example_raw 1 1] [(738900, 81)] EUR_2y_1y ''u'' DEFAULT
            1000)) = [1, 2]"
    by (simp add: extract_defs example_defs)
  have v: "versions_of
     (fst (extract_data real_ops example_env [example_raw 1 1] [EUR_2y_1y] 738900 738900
            DEFAULT)) EUR_2y_1y 738900 = [1, 2]"
    by (simp add: extract_defs example_defs versions_of_def Let_def)
  from t p have a: "\<exists>new. fst (insert_raw_data real_ops [example_raw 1 1] [(738900, 81)]
        EUR_2y_1y ''u'' DEFAULT 1000) = [example_raw 1 1] @ new \<and>
      assigned_by_max [example_raw 1 1] new"
    by blast
  from t u have b: "unique_versions
     (fst (extract_data real_ops example_env [example_raw 1 1] [EUR_2y_1y] 738900 738900
            DEFAULT))"
    by blast
  from t g have c: "gapless
     (fst (extract_data real_ops example_env [example_raw 1 1] [EUR_2y_1y] 738900 738900
            DEFAULT))"
    by blast
  have p': "list_all (\<lambda>r. 1 \<le> raw_version r) [example_raw 1 1]"
    using p by (simp add: list_all_iff)
  from p' u g i a b c v show ?thesis by (intro conjI)
qed

text \<open>
  C3: in the modes default and old_codes the extractor fetches an expression exactly when
  fewer than 3 rows are stored for the expression and the start date; in the mode
  historical it always fetches. A call in the modes default and old_codes leaves, for every
  (expression, date), at most 3 rows or as many as before the call, so a table with at
  most 3 versions everywhere stays one; and a call on expressions that have 3 rows or more
  for the start date leaves the table as it is.
\<close>

theorem C3_version_cap:
  assumes "mode \<in> {DEFAULT, OLD_CODES}"
  shows "should_fetch_data session e sd ed mode =
           Inr (length (versions_of session e sd) < 3) \<and>
         should_fetch_data session e sd ed HISTORICAL = Inr True \<and>
         length (versions_of (fst (extract_data fo env session es sd ed mode)) e' d') \<le>
           max 3 (length (versions_of session e' d')) \<and>
         ((\<forall>x \<in> set es. 3 \<le> length (versions_of session x sd)) \<longrightarrow>
            fst (extract_data fo env session es sd ed mode) = session)"
proof (intro conjI impI)
  show "should_fetch_data session e sd ed mode = Inr (length (versions_of session e sd) < 3)"
    by (rule should_fetch_capped[OF assms])
  show "should_fetch_data session e sd ed HISTORICAL = Inr True"
    by (rule should_fetch_historical)
  show "length (versions_of (fst (extract_data fo env session es sd ed mode)) e' d') \<le>
        max 3 (length (versions_of session e' d'))"
    by (rule extract_data_cap[OF assms])
next
  assume "\<forall>x \<in> set es. 3 \<le> length (versions_of session x sd)"
  then show "fst (extract_data fo env session es sd ed mode) = session"
    by (rule extract_data_noop[OF assms])
qed

theorem C3_version_cap_witness:
  "DEFAULT \<in> {DEFAULT, OLD_CODES} \<and>
   list_all (\<lambda>x. 3 \<le> length (versions_of
                [example_raw 1 1, example_raw 2 2, example_raw 3 3] x 738900)) [EUR_2y_1y] \<and>
   should_fetch_data [example_raw 1 1, example_raw 2 2, example_raw 3 3] EUR_2y_1y 738900
     738900 DEFAULT = Inr False \<and>
   should_fetch_data [example_raw 1 1, example_raw 2 2] EUR_2y_1y 738900 738900 DEFAULT =
     Inr True \<and>
   fst (extract_data real_ops example_env [example_raw 1 1, example_raw 2 2, example_raw 3 3]
         [EUR_2y_1y] 738900 738900 DEFAULT) =
     [example_raw 1 1, example_raw 2 2, example_raw 3 3] \<and>
   length (versions_of
     (fst (extract_data real_ops example_env [example_raw 1 1, example_raw 2 2]
            [EUR_2y_1y, EUR_2y_1y, EUR_2y_1y] 738900 738900 DEFAULT)) EUR_2y_1y 738900) \<le> 3"
proof -
  have m: "DEFAULT \<in> {DEFAULT, OLD_CODES}" by simp
  have n3: "versions_of [example_raw 1 1, example_raw 2 2, example_raw 3 3] EUR_2y_1y 738900 =
      [1, 2, 3]"
    by (simp add: versions_of_def example_defs)
  have n2: "versions_of [example_raw 1 1, example_raw 2 2] EUR_2y_1y 738900 = [1, 2]"
    by (simp add: versions_of_def example_defs)
  note t3 = C3_version_cap [OF m, of "[example_raw 1 1, example_raw 2 2, example_raw 3 3]"
      EUR_2y_1y 738900 738900 real_ops example_env "[EUR_2y_1y]" EUR_2y_1y 738900]
  note t2 = C3_version_cap [OF m, of "[example_raw 1 1, example_raw 2 2]"
      EUR_2y_1y 738900 738900 real_ops example_env "[EUR_2y_1y, EUR_2y_1y, EUR_2y_1y]"
      EUR_2y_1y 738900]
  have full: "\<forall>x \<in> set [EUR_2y_1y].
      3 \<le> length (versions_of [example_raw 1 1, example_raw 2 2, example_raw 3 3] x 738900)"
    by (simp add: n3)
  from t3 full have noop:
    "fst (extract_data real_ops example_env [example_raw 1 1, example_raw 2 2, example_raw 3 3]
           [EUR_2y_1y] 738900 738900 DEFAULT) =
     [example_raw 1 1, example_raw 2 2, example_raw 3 3]"
    by blast
  from t3 have f3: "should_fetch_data [example_raw 1 1, example_raw 2 2, example_raw 3 3]
      EUR_2y_1y 738900 738900 DEFAULT = Inr False"
    by (simp add: n3)
  from t2 have f2: "should_fetch_data [example_raw 1 1, example_raw 2 2]
      EUR_2y_1y 738900 738900 DEFAULT = Inr True"
    by (simp add: n2)
  from t2 have cap: "length (versions_of
     (fst (extract_data real_ops example_env [example_raw 1 1, example_raw 2 2]
            [EUR_2y_1y, EUR_2y_1y, EUR_2y_1y] 738900 738900 DEFAULT)) EUR_2y_1y 738900) \<le> 3"
    by (simp add: n2)
  have full': "list_all (\<lambda>x. 3 \<le> length (versions_of
                [example_raw 1 1, example_raw 2 2, example_raw 3 3] x 738900)) [EUR_2y_1y]"
    using full by (simp add: list_all_iff)
  from m full' f3 f2 noop cap show ?thesis by (intro conjI)
qed

text \<open>
  C6: in the modes default and old_codes a call with a start date other than the end date
  raises the \<^verbatim>\<open>ValueError\<close> of the date range: the table is as before and the result
  depends neither on the expressions nor on the source, the blob store and the clock. In
  the mode historical the call returns metrics for every date range.
\<close>

theorem C6_same_dates_required:
  "(mode \<in> {DEFAULT, OLD_CODES} \<and> sd \<noteq> ed \<longrightarrow>
      extract_data fo env session es sd ed mode =
        (session, Inl (ValueError SameDatesRequired))) \<and>
   (\<exists>session' metrics.
      extract_data fo env session es sd ed HISTORICAL = (session', Inr metrics))"
  by (auto simp: extract_data_def split: prod.splits)

theorem C6_same_dates_required_witness:
  "DEFAULT \<in> {DEFAULT, OLD_CODES} \<and> (738900 :: int) \<noteq> 738901 \<and>
   extract_data real_ops example_env [example_raw 1 1] [EUR_2y_1y] 738900 738901 DEFAULT =
     ([example_raw 1 1], Inl (ValueError SameDatesRequired)) \<and>
   (\<exists>session' metrics.
      extract_data real_ops example_env [example_raw 1 1] [EUR_2y_1y] 738900 738901
        HISTORICAL = (session', Inr metrics))"
  using C6_same_dates_required [of DEFAULT 738900 738901 real_ops example_env
      "[example_raw 1 1]" "[EUR_2y_1y]"]
  by simp

subsection \<open>Loader: upsert\<close>


lemma same_key_overwrite [simp]: "same_key c (overwrite c' r) = same_key c r"
  by (simp add: same_key_def overwrite_def)

lemma overwrite_idem [simp]: "overwrite c (overwrite c r) = overwrite c r"
  by (simp add: overwrite_def)

lemma same_key_refl [simp]: "same_key c c"
  by (simp add: same_key_def)

lemma same_key_id [simp]: "same_key c (r\<lparr>clean_data_id := i\<rparr>) = same_key c r"
  by (simp add: same_key_def)

lemma overwrite_self_id: "overwrite c (c\<lparr>clean_data_id := i\<rparr>) = c\<lparr>clean_data_id := i\<rparr>"
  by (simp add: overwrite_def)

lemma overwrite_self [simp]: "overwrite c c = c"
  by (simp add: overwrite_def)

lemma update_first_none: "\<not> (\<exists>x \<in> set xs. P x) \<Longrightarrow> update_first P f xs = xs"
  by (induction xs) auto






lemma same_key_added_row [simp]: "same_key c (added_row s c)"
  by (simp add: added_row_def)

lemma overwrite_added_row [simp]: "overwrite c (added_row s c) = added_row s c"
  by (simp add: added_row_def overwrite_self_id)



















subsection \<open>Loader: integrity check\<close>

lemma count_duplicates_general:
  "finite seen \<Longrightarrow> count_duplicates ks seen n + card (set ks - seen) = n + length ks"
proof (induction ks arbitrary: seen n)
  case Nil
  then show ?case by simp
next
  case (Cons k ks)
  show ?case
  proof (cases "k \<in> seen")
    case True
    then have "set (k # ks) - seen = set ks - seen" by auto
    then show ?thesis using True Cons.IH[OF Cons.prems, of "n + 1"] by simp
  next
    case False
    have fin: "finite (insert k seen)" using Cons.prems by simp
    have "set (k # ks) - seen = insert k (set ks - insert k seen)" using False by auto
    moreover have "k \<notin> set ks - insert k seen" by simp
    ultimately have "card (set (k # ks) - seen) = Suc (card (set ks - insert k seen))"
      by simp
    then show ?thesis using False Cons.IH[OF fin, of n] by simp
  qed
qed

lemma count_duplicates_eq: "count_duplicates ks {} 0 = length ks - card (set ks)"
  using count_duplicates_general[of "{}" ks 0] by simp

lemma surplus_pos_iff: "0 < length ks - card (set ks) \<longleftrightarrow> \<not> distinct ks"
proof
  assume "0 < length ks - card (set ks)"
  then show "\<not> distinct ks" using distinct_card[of ks] by auto
next
  assume "\<not> distinct ks"
  then have "card (set ks) \<noteq> length ks" using card_distinct[of ks] by blast
  then show "0 < length ks - card (set ks)" using card_length[of ks] by linarith
qed

lemma distinct_count_list: "distinct ks \<longleftrightarrow> (\<forall>k \<in> set ks. count_list ks k \<le> 1)"
proof (induction ks)
  case Nil
  then show ?case by simp
next
  case (Cons a ks)
  show ?case
  proof (cases "a \<in> set ks")
    case True
    then have "count_list ks a \<noteq> 0" by (simp add: count_list_0_iff)
    then show ?thesis using True by auto
  next
    case False
    then have "count_list ks a = 0" by (simp add: count_list_0_iff)
    then show ?thesis using False Cons.IH by auto
  qed
qed

lemma pairs_pos_iff: "0 < pairs_appearing_more_than_once ks \<longleftrightarrow> \<not> distinct ks"
proof -
  have "0 < pairs_appearing_more_than_once ks \<longleftrightarrow>
        (\<exists>k \<in> set ks. 1 < count_list ks k)"
    by (simp add: pairs_appearing_more_than_once_def filter_empty_conv)
  also have "\<dots> \<longleftrightarrow> \<not> distinct ks" by (auto simp: distinct_count_list not_le)
  finally show ?thesis .
qed


lemma latest_fetch_Some:
  "raws \<noteq> [] \<Longrightarrow> latest_fetch raws = Some (Max (set (map raw_fetch_timestamp raws)))"
  by (simp add: latest_fetch_def)

lemma integrity_report_cases:
  assumes "raws \<noteq> []"
      and "ts = Max (set (map raw_fetch_timestamp raws))"
      and "ks = map combo (latest_clean_data raws cleans ts)"
      and "d = length ks - card (set ks)"
  shows "validate_clean_data_integrity raws cleans =
         (if 0 < d
          then \<lparr>valid = False, issues = [FoundDuplicates d ts], duplicate_combinations = d,
                validation_fetch_timestamp = Some ts, records_checked = length ks\<rparr>
          else \<lparr>valid = True, issues = [], duplicate_combinations = 0,
                validation_fetch_timestamp = Some ts, records_checked = length ks\<rparr>)"
proof -
  let ?rows = "latest_clean_data raws cleans ts"
  have ks: "map (\<lambda>c. (clean_expression c, clean_date c)) ?rows = ks"
    using assms(3) by (simp add: combo_def[abs_def])
  have d: "count_duplicates (map (\<lambda>c. (clean_expression c, clean_date c)) ?rows) {} 0 = d"
    unfolding ks assms(4) by (rule count_duplicates_eq)
  have len: "length ?rows = length ks" using ks by (metis length_map)
  show ?thesis
    using d len unfolding assms(2)
    by (simp add: validate_clean_data_integrity_def latest_fetch_Some[OF assms(1)] Let_def)
qed

lemma integrity_report_duplicates:
  assumes "raws \<noteq> []"
      and "ts = Max (set (map raw_fetch_timestamp raws))"
      and "ks = map combo (latest_clean_data raws cleans ts)"
      and "\<not> distinct ks"
  shows "validate_clean_data_integrity raws cleans =
         \<lparr>valid = False, issues = [FoundDuplicates (length ks - card (set ks)) ts],
          duplicate_combinations = length ks - card (set ks),
          validation_fetch_timestamp = Some ts, records_checked = length ks\<rparr>"
proof -
  have "0 < length ks - card (set ks)" using assms(4) surplus_pos_iff[of ks] by blast
  then show ?thesis
    using integrity_report_cases[OF assms(1,2,3) refl] by (simp only: if_True)
qed

lemma integrity_report_distinct:
  assumes "raws \<noteq> []"
      and "ts = Max (set (map raw_fetch_timestamp raws))"
      and "ks = map combo (latest_clean_data raws cleans ts)"
      and "distinct ks"
  shows "validate_clean_data_integrity raws cleans =
         \<lparr>valid = True, issues = [], duplicate_combinations = 0,
          validation_fetch_timestamp = Some ts, records_checked = length ks\<rparr>"
proof -
  have "\<not> 0 < length ks - card (set ks)" using assms(4) surplus_pos_iff[of ks] by blast
  then show ?thesis
    using integrity_report_cases[OF assms(1,2,3) refl] by (simp only: if_False)
qed

lemma two_rows_one_fetch:
  assumes "combo c1 = combo c2"
      and "length (filter (\<lambda>r. clean_expression c1 = raw_expression r \<and>
                              clean_date c1 = raw_date r \<and>
                              raw_fetch_timestamp r = ts) raws) = 1"
  shows "map combo (latest_clean_data raws [c1, c2] ts) = [combo c1, combo c1]"
proof -
  let ?M = "\<lambda>c r. clean_expression c = raw_expression r \<and> clean_date c = raw_date r \<and>
                  raw_fetch_timestamp r = ts"
  have same: "?M c2 = ?M c1" using assms(1) by (auto simp: combo_def)
  obtain r where r: "filter (?M c1) raws = [r]"
    using assms(2) by (cases "filter (?M c1) raws") auto
  have "latest_clean_data raws [c1, c2] ts = [c1, c2]"
    by (simp add: latest_clean_data_def same r)
  then show ?thesis using assms(1) by simp
qed

text \<open>
  C7, as the code has it: with a raw table that is not empty, the check joins the clean
  rows with the raw rows of the latest fetch timestamp on (expression, date) and counts
  the rows of the result beyond the first of each (expression, date): the number of rows
  less the number of distinct pairs. The count is positive exactly when some pair occurs
  more than once; then the report is not valid and carries the count, also in the issue.
  Two clean rows with the same (expression, date), matched by one raw row of the latest
  fetch timestamp, give a report that is not valid with the count 1.
\<close>

theorem C7_integrity_check:
  "(raws \<noteq> [] \<longrightarrow>
      (let ts = Max (set (map raw_fetch_timestamp raws));
           ks = map combo (latest_clean_data raws cleans ts);
           d = length ks - card (set ks)
       in validate_clean_data_integrity raws cleans =
            (if 0 < d
             then \<lparr>valid = False, issues = [FoundDuplicates d ts], duplicate_combinations = d,
                   validation_fetch_timestamp = Some ts, records_checked = length ks\<rparr>
             else \<lparr>valid = True, issues = [], duplicate_combinations = 0,
                   validation_fetch_timestamp = Some ts, records_checked = length ks\<rparr>) \<and>
          (0 < d \<longleftrightarrow> \<not> distinct ks) \<and>
          (0 < d \<longleftrightarrow> 0 < pairs_appearing_more_than_once ks))) \<and>
   (raws \<noteq> [] \<and> combo c1 = combo c2 \<and>
    length (filter (\<lambda>r. clean_expression c1 = raw_expression r \<and>
                        clean_date c1 = raw_date r \<and>
                        raw_fetch_timestamp r = Max (set (map raw_fetch_timestamp raws)))
              raws) = 1 \<longrightarrow>
      valid (validate_clean_data_integrity raws [c1, c2]) = False \<and>
      duplicate_combinations (validate_clean_data_integrity raws [c1, c2]) = 1)"
proof (intro conjI impI)
  assume ne: "raws \<noteq> []"
  show "let ts = Max (set (map raw_fetch_timestamp raws));
            ks = map combo (latest_clean_data raws cleans ts);
            d = length ks - card (set ks)
        in validate_clean_data_integrity raws cleans =
            (if 0 < d
             then \<lparr>valid = False, issues = [FoundDuplicates d ts], duplicate_combinations = d,
                   validation_fetch_timestamp = Some ts, records_checked = length ks\<rparr>
             else \<lparr>valid = True, issues = [], duplicate_combinations = 0,
                   validation_fetch_timestamp = Some ts, records_checked = length ks\<rparr>) \<and>
          (0 < d \<longleftrightarrow> \<not> distinct ks) \<and>
          (0 < d \<longleftrightarrow> 0 < pairs_appearing_more_than_once ks)"
    unfolding Let_def
    using integrity_report_cases[OF ne refl refl refl, of cleans]
    by (simp only: surplus_pos_iff pairs_pos_iff simp_thms)
next
  assume h: "raws \<noteq> [] \<and> combo c1 = combo c2 \<and>
    length (filter (\<lambda>r. clean_expression c1 = raw_expression r \<and>
                        clean_date c1 = raw_date r \<and>
                        raw_fetch_timestamp r = Max (set (map raw_fetch_timestamp raws)))
              raws) = 1"
  let ?ts = "Max (set (map raw_fetch_timestamp raws))"
  have ks: "map combo (latest_clean_data raws [c1, c2] ?ts) = [combo c1, combo c1]"
    using h by (intro two_rows_one_fetch) simp_all
  have nd: "\<not> distinct [combo c1, combo c1]" by simp
  have ne: "raws \<noteq> []" using h by simp
  have rep: "validate_clean_data_integrity raws [c1, c2] =
      \<lparr>valid = False,
       issues = [FoundDuplicates
                   (length [combo c1, combo c1] - card (set [combo c1, combo c1])) ?ts],
       duplicate_combinations = length [combo c1, combo c1] - card (set [combo c1, combo c1]),
       validation_fetch_timestamp = Some ?ts,
       records_checked = length [combo c1, combo c1]\<rparr>"
    by (rule integrity_report_duplicates[OF ne refl ks[symmetric] nd])
  show "valid (validate_clean_data_integrity raws [c1, c2]) = False"
    unfolding rep by simp
  show "duplicate_combinations (validate_clean_data_integrity raws [c1, c2]) = 1"
    unfolding rep by simp
qed

theorem C7_integrity_check_witness:
  "[example_raw 1 1] \<noteq> [] \<and>
   combo (example_clean (Some 1) 80 1) = combo (example_clean (Some 2) 81 1) \<and>
   length (filter (\<lambda>r. clean_expression (example_clean (Some 1) 80 1) = raw_expression r \<and>
                       clean_date (example_clean (Some 1) 80 1) = raw_date r \<and>
                       raw_fetch_timestamp r =
                         Max (set (map raw_fetch_timestamp [example_raw 1 1])))
             [example_raw 1 1]) = 1 \<and>
   valid (validate_clean_data_integrity [example_raw 1 1]
            [example_clean (Some 1) 80 1, example_clean (Some 2) 81 1]) = False \<and>
   duplicate_combinations (validate_clean_data_integrity [example_raw 1 1]
            [example_clean (Some 1) 80 1, example_clean (Some 2) 81 1]) = 1"
proof -
  note t = C7_integrity_check [of "[example_raw 1 1]" "[]" "example_clean (Some 1) 80 1"
      "example_clean (Some 2) 81 1"]
  have a: "[example_raw 1 1] \<noteq> []" by simp
  have b: "combo (example_clean (Some 1) 80 1) = combo (example_clean (Some 2) 81 1)"
    by (simp add: combo_def example_clean_def)
  have c: "length (filter (\<lambda>r. clean_expression (example_clean (Some 1) 80 1) = raw_expression r \<and>
                       clean_date (example_clean (Some 1) 80 1) = raw_date r \<and>
                       raw_fetch_timestamp r =
                         Max (set (map raw_fetch_timestamp [example_raw 1 1])))
             [example_raw 1 1]) = 1"
    by (simp add: example_clean_def example_raw_def)
  from t a b c have d: "valid (validate_clean_data_integrity [example_raw 1 1]
            [example_clean (Some 1) 80 1, example_clean (Some 2) 81 1]) = False \<and>
   duplicate_combinations (validate_clean_data_integrity [example_raw 1 1]
            [example_clean (Some 1) 80 1, example_clean (Some 2) 81 1]) = 1"
    by blast
  from a b c d show ?thesis by (intro conjI) simp_all
qed

text \<open>
  Three clean rows with the same (expression, date) give the count 2, where one
  (expression, date) pair occurs more than once.
\<close>

theorem C7_count_counterexample:
  "duplicate_combinations (validate_clean_data_integrity [example_raw 1 1]
     [example_clean (Some 1) 80 1, example_clean (Some 2) 80 1, example_clean (Some 3) 80 1]) = 2 \<and>
   pairs_appearing_more_than_once
     (map combo (latest_clean_data [example_raw 1 1]
        [example_clean (Some 1) 80 1, example_clean (Some 2) 80 1, example_clean (Some 3) 80 1]
        900)) = 1"
  by (simp add: validate_clean_data_integrity_def latest_fetch_def latest_clean_data_def
      pairs_appearing_more_than_once_def combo_def example_clean_def example_raw_def Let_def)


subsection \<open>Transformer: selection\<close>

lemma selection_default:
  "get_raw_data_to_process raws cleans None =
   map fst (sort_key (\<lambda>(r, c). raw_data_id r)
             (filter needs_processing (outer_join raws cleans)))"
  by (simp add: get_raw_data_to_process_def)

lemma selection_empty_list:
  "get_raw_data_to_process raws cleans (Some []) = get_raw_data_to_process raws cleans None"
  by (simp add: get_raw_data_to_process_def)

lemma selection_sorted: "sorted (map raw_data_id (get_raw_data_to_process raws cleans None))"
proof -
  let ?xs = "filter needs_processing (outer_join raws cleans)"
  let ?k = "\<lambda>(r, c). raw_data_id r"
  have "map raw_data_id (map fst (sort_key ?k ?xs)) = map ?k (sort_key ?k ?xs)"
    by (simp add: case_prod_beta)
  then show ?thesis by (simp only: selection_default sorted_sort_key)
qed

lemma set_outer_join:
  "set (outer_join raws cleans) =
   {(r, None) | r. r \<in> set raws \<and>
      \<not> (\<exists>c \<in> set cleans. clean_expression c = raw_expression r \<and> clean_date c = raw_date r)} \<union>
   {(r, Some c) | r c. r \<in> set raws \<and> c \<in> set cleans \<and>
      clean_expression c = raw_expression r \<and> clean_date c = raw_date r}"
  (is "?L = ?N \<union> ?S")
proof (intro set_eqI iffI)
  fix p
  assume "p \<in> ?L"
  then obtain r where r: "r \<in> set raws"
    and p: "p \<in> set (case filter (\<lambda>c. clean_expression c = raw_expression r \<and>
                                       clean_date c = raw_date r) cleans of
                       [] \<Rightarrow> [(r, None)]
                     | m # ms \<Rightarrow> map (\<lambda>c. (r, Some c)) (m # ms))"
    by (auto simp: outer_join_def)
  let ?ms = "filter (\<lambda>c. clean_expression c = raw_expression r \<and> clean_date c = raw_date r) cleans"
  show "p \<in> ?N \<union> ?S"
  proof (cases ?ms)
    case Nil
    then have "\<not> (\<exists>c \<in> set cleans. clean_expression c = raw_expression r \<and>
                                     clean_date c = raw_date r)"
      by (simp add: filter_empty_conv)
    then show ?thesis using p r Nil by auto
  next
    case (Cons m ms)
    then have "p \<in> (\<lambda>c. (r, Some c)) ` set ?ms" using p by (metis list.simps(5) set_map)
    then show ?thesis using r by auto
  qed
next
  fix p
  assume "p \<in> ?N \<union> ?S"
  then consider (n) r where "p = (r, None)" "r \<in> set raws"
      "\<not> (\<exists>c \<in> set cleans. clean_expression c = raw_expression r \<and> clean_date c = raw_date r)"
    | (s) r c where "p = (r, Some c)" "r \<in> set raws" "c \<in> set cleans"
      "clean_expression c = raw_expression r \<and> clean_date c = raw_date r"
    by auto
  then show "p \<in> ?L"
  proof cases
    case n
    then have "filter (\<lambda>c. clean_expression c = raw_expression r \<and> clean_date c = raw_date r)
                 cleans = []"
      by (simp add: filter_empty_conv)
    then show ?thesis using n(1,2) by (force simp: outer_join_def)
  next
    case s
    let ?ms = "filter (\<lambda>c. clean_expression c = raw_expression r \<and> clean_date c = raw_date r)
                 cleans"
    have c: "c \<in> set ?ms" using s(3,4) by simp
    then obtain m ms where ms: "?ms = m # ms" by (cases ?ms) auto
    have "p \<in> set (map (\<lambda>c. (r, Some c)) ?ms)" using c s(1) by auto
    then show ?thesis
      using s(2) ms unfolding outer_join_def
      by (auto simp del: filter.simps intro!: bexI[of _ r])
  qed
qed

lemma selection_set:
  assumes "\<forall>c \<in> set cleans. clean_data_id c \<noteq> None"
  shows "set (get_raw_data_to_process raws cleans None) =
         {r \<in> set raws. unprocessed_or_newer cleans r}"
proof -
  have "set (get_raw_data_to_process raws cleans None) =
        fst ` {p \<in> set (outer_join raws cleans). needs_processing p}"
    by (simp add: selection_default)
  also have "\<dots> = {r \<in> set raws. unprocessed_or_newer cleans r}"
  proof (intro set_eqI iffI)
    fix r
    assume "r \<in> fst ` {p \<in> set (outer_join raws cleans). needs_processing p}"
    then obtain co where p: "(r, co) \<in> set (outer_join raws cleans)"
      "needs_processing (r, co)" by auto
    show "r \<in> {r \<in> set raws. unprocessed_or_newer cleans r}"
    proof (cases co)
      case None
      then show ?thesis
        using p(1) by (auto simp: set_outer_join unprocessed_or_newer_def list_all_iff)
    next
      case (Some c)
      then have c: "r \<in> set raws" "c \<in> set cleans"
        "clean_expression c = raw_expression r \<and> clean_date c = raw_date r"
        using p(1) by (auto simp: set_outer_join)
      have "case raw_data_id r of None \<Rightarrow> False | Some i \<Rightarrow> clean_raw_data_id c < i"
        using p(2) Some assms c(2) by auto
      then show ?thesis
        using c by (auto simp: unprocessed_or_newer_def list_ex_iff)
    qed
  next
    fix r
    assume "r \<in> {r \<in> set raws. unprocessed_or_newer cleans r}"
    then have r: "r \<in> set raws" and u: "unprocessed_or_newer cleans r" by auto
    from u consider
      (none) "\<not> (\<exists>c \<in> set cleans. clean_expression c = raw_expression r \<and>
                                      clean_date c = raw_date r)"
      | (newer) c where "c \<in> set cleans"
          "clean_expression c = raw_expression r \<and> clean_date c = raw_date r"
          "case raw_data_id r of None \<Rightarrow> False | Some i \<Rightarrow> clean_raw_data_id c < i"
      by (auto simp: unprocessed_or_newer_def list_all_iff list_ex_iff)
    then show "r \<in> fst ` {p \<in> set (outer_join raws cleans). needs_processing p}"
    proof cases
      case none
      then have "(r, None) \<in> set (outer_join raws cleans)"
        using r by (simp add: set_outer_join)
      then show ?thesis by force
    next
      case newer
      then have "(r, Some c) \<in> set (outer_join raws cleans)"
        using r by (simp add: set_outer_join)
      moreover have "needs_processing (r, Some c)" using newer(3) by simp
      ultimately show ?thesis by force
    qed
  qed
  finally show ?thesis .
qed

lemma transform_loop_processed:
  "rows_processed (snd (transform_loop fo rs (cs, m))) = rows_processed m + length rs"
proof (induction rs arbitrary: cs m)
  case Nil
  then show ?case by simp
next
  case (Cons r rs)
  show ?case
  proof (cases "transform_record fo r")
    case (Inr c)
    then show ?thesis by (simp add: Cons.IH Let_def)
  next
    case (Inl err)
    then show ?thesis by (cases err) (simp_all add: Cons.IH Let_def)
  qed
qed

text \<open>
  C10: with the empty list of raw ids the selection, and so the whole transformation, is
  the one without the argument: the number of rows processed is the number of rows the
  default query selects, the rows are in ascending order of the raw key, and, in a clean
  table whose rows have keys, they are the raw rows that have no clean row for their
  (expression, date) or a key greater than the raw key such a clean row refers to.
\<close>

theorem C10_empty_list_is_default:
  "get_raw_data_to_process raws cleans (Some []) = get_raw_data_to_process raws cleans None \<and>
   transform_raw_data fo raws cleans (Some []) = transform_raw_data fo raws cleans None \<and>
   rows_processed (snd (transform_raw_data fo raws cleans (Some []))) =
     length (get_raw_data_to_process raws cleans None) \<and>
   sorted (map raw_data_id (get_raw_data_to_process raws cleans (Some []))) \<and>
   ((\<forall>c \<in> set cleans. clean_data_id c \<noteq> None) \<longrightarrow>
      set (get_raw_data_to_process raws cleans (Some [])) =
        {r \<in> set raws. unprocessed_or_newer cleans r})"
proof (intro conjI impI)
  show "get_raw_data_to_process raws cleans (Some []) = get_raw_data_to_process raws cleans None"
    by (rule selection_empty_list)
  show "transform_raw_data fo raws cleans (Some []) = transform_raw_data fo raws cleans None"
    by (simp add: transform_raw_data_def selection_empty_list)
  show "rows_processed (snd (transform_raw_data fo raws cleans (Some []))) =
        length (get_raw_data_to_process raws cleans None)"
    by (simp add: transform_raw_data_def selection_empty_list transform_loop_processed)
  show "sorted (map raw_data_id (get_raw_data_to_process raws cleans (Some [])))"
    by (simp only: selection_empty_list selection_sorted)
next
  assume "\<forall>c \<in> set cleans. clean_data_id c \<noteq> None"
  then show "set (get_raw_data_to_process raws cleans (Some [])) =
      {r \<in> set raws. unprocessed_or_newer cleans r}"
    by (simp only: selection_empty_list selection_set)
qed

theorem C10_empty_list_is_default_witness:
  "list_all (\<lambda>c. clean_data_id c \<noteq> None) [example_clean (Some 1) 80 1] \<and>
   get_raw_data_to_process [example_raw 2 2, example_raw 1 1] [example_clean (Some 1) 80 1]
     (Some []) = [example_raw 2 2] \<and>
   get_raw_data_to_process [example_raw 2 2, example_raw 1 1] [example_clean (Some 1) 80 1]
     None = [example_raw 2 2] \<and>
   unprocessed_or_newer [example_clean (Some 1) 80 1] (example_raw 2 2) \<and>
   \<not> unprocessed_or_newer [example_clean (Some 1) 80 1] (example_raw 1 1) \<and>
   rows_processed (snd (transform_raw_data real_ops [example_raw 2 2, example_raw 1 1]
     [example_clean (Some 1) 80 1] (Some []))) = 1"
proof -
  note t = C10_empty_list_is_default [of "[example_raw 2 2, example_raw 1 1]"
      "[example_clean (Some 1) 80 1]" real_ops]
  have ids: "\<forall>c \<in> set [example_clean (Some 1) 80 1]. clean_data_id c \<noteq> None"
    by (simp add: example_clean_def)
  have n: "get_raw_data_to_process [example_raw 2 2, example_raw 1 1]
      [example_clean (Some 1) 80 1] None = [example_raw 2 2]"
    by (simp add: get_raw_data_to_process_def outer_join_def example_clean_def example_raw_def)
  have u2: "unprocessed_or_newer [example_clean (Some 1) 80 1] (example_raw 2 2)"
    by (simp add: unprocessed_or_newer_def example_clean_def example_raw_def)
  have u1: "\<not> unprocessed_or_newer [example_clean (Some 1) 80 1] (example_raw 1 1)"
    by (simp add: unprocessed_or_newer_def example_clean_def example_raw_def)
  have e: "get_raw_data_to_process [example_raw 2 2, example_raw 1 1]
      [example_clean (Some 1) 80 1] (Some []) = [example_raw 2 2]"
    using t [THEN conjunct1] unfolding n .
  have p: "rows_processed (snd (transform_raw_data real_ops
      [example_raw 2 2, example_raw 1 1] [example_clean (Some 1) 80 1] (Some []))) = 1"
    using t [THEN conjunct2, THEN conjunct2, THEN conjunct1] unfolding n by simp
  have ids': "list_all (\<lambda>c. clean_data_id c \<noteq> None) [example_clean (Some 1) 80 1]"
    using ids by (simp add: list_all_iff)
  from ids' e n u2 u1 p show ?thesis by (intro conjI)
qed

end
